theory Spec2Isabelle
  imports Complex_Main "HOL-Library.Log_Nat"
begin

section \<open>Machine integers and strings of the Go program\<close>

text \<open>
  Go's \<^verbatim>\<open>int\<close> is taken as the 64-bit signed integer of the usual build targets and
  \<^verbatim>\<open>int32\<close> as the 32-bit one. Values are HOL integers; an operation whose result can
  leave the range is wrapped explicitly, a conversion \<^verbatim>\<open>int32(x)\<close> is \<open>wrap32 x\<close>.
\<close>

definition wrap64 :: "int \<Rightarrow> int" where
  "wrap64 x = (x + 2 ^ 63) mod 2 ^ 64 - 2 ^ 63"

definition wrap32 :: "int \<Rightarrow> int" where
  "wrap32 x = (x + 2 ^ 31) mod 2 ^ 32 - 2 ^ 31"

text \<open>
  A Go string is a sequence of bytes: \<open>string\<close> (a list of 8-bit characters), and
  \<^verbatim>\<open>len(s)\<close> is \<open>length s\<close>. The conversion \<^verbatim>\<open>[]rune(s)\<close> decodes UTF-8; a byte that
  does not start a well-formed encoding is one rune, U+FFFD. A rune is kept here as the
  bytes \<^verbatim>\<open>string(r)\<close> encodes it to: the bytes it was decoded from, or the three bytes
  of U+FFFD.
\<close>

definition inRange :: "nat \<Rightarrow> nat \<Rightarrow> char \<Rightarrow> bool" where
  "inRange lo hi c = (lo \<le> of_char c \<and> (of_char c :: nat) \<le> hi)"

fun runeWidth :: "string \<Rightarrow> nat" where
  "runeWidth [] = 0"
| "runeWidth (b0 # bs) =
    (let x = (of_char b0 :: nat) in
     if x < 0x80 then 1
     else if 0xC2 \<le> x \<and> x \<le> 0xDF then
       (case bs of
          b1 # _ \<Rightarrow> if inRange 0x80 0xBF b1 then 2 else 1
        | _ \<Rightarrow> 1)
     else if 0xE0 \<le> x \<and> x \<le> 0xEF then
       (case bs of
          b1 # b2 # _ \<Rightarrow>
            if inRange (if x = 0xE0 then 0xA0 else 0x80) (if x = 0xED then 0x9F else 0xBF) b1
               \<and> inRange 0x80 0xBF b2
            then 3 else 1
        | _ \<Rightarrow> 1)
     else if 0xF0 \<le> x \<and> x \<le> 0xF4 then
       (case bs of
          b1 # b2 # b3 # _ \<Rightarrow>
            if inRange (if x = 0xF0 then 0x90 else 0x80) (if x = 0xF4 then 0x8F else 0xBF) b1
               \<and> inRange 0x80 0xBF b2 \<and> inRange 0x80 0xBF b3
            then 4 else 1
        | _ \<Rightarrow> 1)
     else 1)"

definition RuneError :: string where
  "RuneError = [CHR 0xEF, CHR 0xBF, CHR 0xBD]"

fun runes :: "string \<Rightarrow> string list" where
  "runes [] = []"
| "runes (b0 # bs) =
    (if runeWidth (b0 # bs) = 1 \<and> 0x80 \<le> (of_char b0 :: nat) then RuneError
     else take (runeWidth (b0 # bs)) (b0 # bs))
    # runes (drop (runeWidth (b0 # bs) - 1) bs)"

section \<open>Token estimator and output synthesizer (package mock)\<close>

text \<open>\<^verbatim>\<open>ApproxTokens\<close>: 0 for the empty string, otherwise \<^verbatim>\<open>(r + 3) / 4\<close> with \<open>r\<close> the
  number of runes. Both operands of the division are non-negative, where Go's truncating
  division and \<open>div\<close> agree.\<close>

definition ApproxTokens :: "string \<Rightarrow> int" where
  "ApproxTokens s =
    (if s = [] then 0
     else let r = int (length (runes s)) in (r + 3) div 4)"

text \<open>\<^verbatim>\<open>trim(s, n)\<close>: the string itself when it has at most \<open>n\<close> runes, otherwise its first \<open>n\<close>
  runes followed by the horizontal ellipsis U+2026. Its only caller passes 140.\<close>

definition ellipsis :: string where
  "ellipsis = [CHR 0xE2, CHR 0x80, CHR 0xA6]"

definition trim :: "string \<Rightarrow> nat \<Rightarrow> string" where
  "trim s n =
    (let rs = runes s in
     if length rs \<le> n then s else concat (take n rs) @ ellipsis)"

text \<open>The filler loop of \<^verbatim>\<open>BuildOutput\<close>:
  \<^verbatim>\<open>for len(s) < target { s += "[mock-token] " }\<close>.\<close>

function fill :: "string \<Rightarrow> int \<Rightarrow> string" where
  "fill s target =
    (if int (length s) < target then fill (s @ ''[mock-token] '') target else s)"
  by pat_completeness auto
termination
  by (relation "measure (\<lambda>(s, target). nat (target - int (length s)))") auto

declare fill.simps [simp del]

definition boilerplate :: string where
  "boilerplate =
     ''This is a server-streaming mock response for benchmarking Kafka/worker throughput. \<newline>''
     @ ''It simulates latency, errors, and chunked deltas. \<newline>''"

text \<open>The target length computed by the first half of \<^verbatim>\<open>BuildOutput\<close>. The product
  \<^verbatim>\<open>maxTokens * 4\<close> is a 64-bit multiplication.\<close>

definition targetLen :: "int \<Rightarrow> bool \<Rightarrow> int \<Rightarrow> int \<Rightarrow> int" where
  "targetLen maxTokens strictTokenMode debugChars maxChars =
    (let target = debugChars;
         target = (if target = 0 then 512 else target);
         target = (if strictTokenMode
                   then (let maxTokens = (if maxTokens \<le> 0 then 128 else maxTokens)
                         in wrap64 (maxTokens * 4))
                   else target);
         target = (if target < 64 then 64 else target);
         cap = maxChars;
         cap = (if cap = 0 then 4096 else cap);
         target = (if cap > 0 \<and> target > cap then cap else target)
     in target)"

text \<open>\<^verbatim>\<open>BuildOutput\<close>. The verb \<^verbatim>\<open>%q\<close> of \<^verbatim>\<open>fmt.Sprintf\<close> (Go's \<^verbatim>\<open>strconv.Quote\<close>, which depends
  on the Unicode tables) is not code of the repository: it is the parameter \<open>quote\<close>.
  The final slice \<^verbatim>\<open>s[:target]\<close> is within bounds, since the loop leaves
  \<open>target \<le> len(s)\<close> and the target is positive (lemma \<open>targetLen_pos\<close>).\<close>

definition BuildOutput ::
  "(string \<Rightarrow> string) \<Rightarrow> string \<Rightarrow> int \<Rightarrow> bool \<Rightarrow> bool \<Rightarrow> int \<Rightarrow> int \<Rightarrow> string" where
  "BuildOutput quote prompt maxTokens echoPrompt strictTokenMode debugChars maxChars =
    (let target = targetLen maxTokens strictTokenMode debugChars maxChars;
         prefix = (if echoPrompt
                   then ''Mock answer for: '' @ quote (trim prompt 140) @ ''\<newline>\<newline>''
                   else '''');
         s = prefix @ boilerplate
     in take (nat target) (fill s target))"

section \<open>Standard-library functions\<close>

text \<open>
  \<^verbatim>\<open>strings.TrimSpace\<close> removes the leading and the trailing runes that \<^verbatim>\<open>unicode.IsSpace\<close>
  accepts: six ASCII characters, U+0085, U+00A0, U+1680, U+2000 to U+200A, U+2028,
  U+2029, U+202F, U+205F and U+3000. A byte that is not part of a well-formed encoding
  of one of them stops the trimming, so trimming removes, at either end, the encodings
  listed here.
\<close>

definition spaceRunes :: "string list" where
  "spaceRunes =
    [[CHR 0x09], [CHR 0x0A], [CHR 0x0B], [CHR 0x0C], [CHR 0x0D], [CHR 0x20],
     [CHR 0xC2, CHR 0x85], [CHR 0xC2, CHR 0xA0], [CHR 0xE1, CHR 0x9A, CHR 0x80],
     [CHR 0xE2, CHR 0x80, CHR 0x80], [CHR 0xE2, CHR 0x80, CHR 0x81],
     [CHR 0xE2, CHR 0x80, CHR 0x82], [CHR 0xE2, CHR 0x80, CHR 0x83],
     [CHR 0xE2, CHR 0x80, CHR 0x84], [CHR 0xE2, CHR 0x80, CHR 0x85],
     [CHR 0xE2, CHR 0x80, CHR 0x86], [CHR 0xE2, CHR 0x80, CHR 0x87],
     [CHR 0xE2, CHR 0x80, CHR 0x88], [CHR 0xE2, CHR 0x80, CHR 0x89],
     [CHR 0xE2, CHR 0x80, CHR 0x8A], [CHR 0xE2, CHR 0x80, CHR 0xA8],
     [CHR 0xE2, CHR 0x80, CHR 0xA9], [CHR 0xE2, CHR 0x80, CHR 0xAF],
     [CHR 0xE2, CHR 0x81, CHR 0x9F], [CHR 0xE3, CHR 0x80, CHR 0x80]]"

text \<open>The width of the space rune that \<open>s\<close> starts with among the given encodings, 0 if
  there is none.\<close>

definition spaceWidth :: "string list \<Rightarrow> string \<Rightarrow> nat" where
  "spaceWidth encs s =
    (case List.find (\<lambda>e. take (length e) s = e) encs of
       None \<Rightarrow> 0
     | Some e \<Rightarrow> length e)"

fun trimLeftSpace :: "string list \<Rightarrow> string \<Rightarrow> string" where
  "trimLeftSpace encs [] = []"
| "trimLeftSpace encs (c # cs) =
    (if spaceWidth encs (c # cs) = 0 then c # cs
     else trimLeftSpace encs (drop (spaceWidth encs (c # cs) - 1) cs))"

definition TrimSpace :: "string \<Rightarrow> string" where
  "TrimSpace s =
     rev (trimLeftSpace (map rev spaceRunes) (rev (trimLeftSpace spaceRunes s)))"

text \<open>
  Three more library functions have results that depend on code and Unicode tables
  outside the repository. They are parameters of the model, collected in one record;
  every theorem holds for all of them.
\<close>

record golib =
  Quote :: "string \<Rightarrow> string"  \<comment> \<open>\<^verbatim>\<open>strconv.Quote\<close>, the verb \<^verbatim>\<open>%q\<close>\<close>
  ToLower :: "string \<Rightarrow> string"  \<comment> \<open>\<^verbatim>\<open>strings.ToLower\<close>\<close>
  Atoi :: "string \<Rightarrow> int option"  \<comment> \<open>\<^verbatim>\<open>strconv.Atoi\<close>, \<open>None\<close> for an error\<close>

text \<open>An instance for concrete evaluations. \<open>asciiQuote\<close> agrees with the library on text of
  printable characters without quotes or backslashes (such text is quoted as it is, also
  where it is not ASCII), \<open>asciiToLower\<close> on ASCII text and \<open>asciiAtoi\<close> on unsigned decimal
  numerals of at most 18 digits, which is all the evaluations below feed them.\<close>

definition asciiToLower :: "string \<Rightarrow> string" where
  "asciiToLower s =
    map (\<lambda>c. if 65 \<le> (of_char c :: nat) \<and> (of_char c :: nat) \<le> 90
             then char_of ((of_char c :: nat) + 32) else c) s"

definition asciiQuote :: "string \<Rightarrow> string" where
  "asciiQuote s = [CHR 0x22] @ s @ [CHR 0x22]"

definition digitVal :: "char \<Rightarrow> int option" where
  "digitVal c =
    (if 48 \<le> (of_char c :: nat) \<and> (of_char c :: nat) \<le> 57
     then Some (int (of_char c) - 48) else None)"

fun decimal :: "int \<Rightarrow> string \<Rightarrow> int option" where
  "decimal acc [] = Some acc"
| "decimal acc (c # cs) =
    (case digitVal c of None \<Rightarrow> None | Some d \<Rightarrow> decimal (acc * 10 + d) cs)"

definition asciiAtoi :: "string \<Rightarrow> int option" where
  "asciiAtoi s = (if s = [] \<or> 18 < length s then None else decimal 0 s)"

definition asciiLib :: golib where
  "asciiLib = \<lparr> Quote = asciiQuote, ToLower = asciiToLower, Atoi = asciiAtoi \<rparr>"

section \<open>Random source (package mock)\<close>

text \<open>
  The package-level generator is an oracle: the raw draws still to come. \<^verbatim>\<open>RandIntn(n)\<close>
  returns 0 without drawing when \<open>n \<le> 0\<close> and otherwise reduces one draw into \<open>[0, n)\<close>;
  \<^verbatim>\<open>RandFloat64()\<close> turns one draw into a multiple of \<open>2\<^sup>-\<^sup>5\<^sup>3\<close> in \<open>[0, 1)\<close>. Every value
  the library can return is returned for some oracle.
\<close>

type_synonym rng = "nat \<Rightarrow> nat"

definition nextRaw :: "rng \<Rightarrow> nat \<times> rng" where
  "nextRaw g = (g 0, \<lambda>i. g (Suc i))"

definition RandIntn :: "int \<Rightarrow> rng \<Rightarrow> int \<times> rng" where
  "RandIntn n g =
    (if n \<le> 0 then (0, g)
     else (int (fst (nextRaw g)) mod n, snd (nextRaw g)))"

definition RandFloat64 :: "rng \<Rightarrow> rat \<times> rng" where
  "RandFloat64 g = (of_nat (fst (nextRaw g) mod 2 ^ 53) / 2 ^ 53, snd (nextRaw g))"

definition letters :: string where
  "letters = ''abcdefghijklmnopqrstuvwxyz0123456789''"

fun RandIDn :: "nat \<Rightarrow> rng \<Rightarrow> string \<times> rng" where
  "RandIDn 0 g = ([], g)"
| "RandIDn (Suc k) g =
    (let (i, g1) = RandIntn (int (length letters)) g;
         (b, g2) = RandIDn k g1
     in (letters ! nat i # b, g2))"

definition RandID :: "rng \<Rightarrow> string \<times> rng" where
  "RandID g = RandIDn 10 g"

section \<open>Floating point\<close>

text \<open>
  A finite \<^verbatim>\<open>float64\<close> is the rational number it denotes. \<open>f64round\<close> rounds a rational to
  the nearest number with a 53-bit significand, ties to even: the result of an IEEE 754
  operation in the normal range, which the probabilities and token counts below never
  leave. A configured error rate may also be parsed as a NaN or an infinity.
\<close>

definition pow2 :: "int \<Rightarrow> rat" where
  "pow2 e = (if 0 \<le> e then 2 ^ nat e else 1 / 2 ^ nat (- e))"

definition f64exp :: "rat \<Rightarrow> int" where
  "f64exp x =
    (let e0 = bitlen (fst (quotient_of x)) - bitlen (snd (quotient_of x))
     in if pow2 e0 \<le> x then e0 else e0 - 1)"

definition roundEven :: "rat \<Rightarrow> int" where
  "roundEven m =
    (let f = \<lfloor>m\<rfloor>; d = m - of_int f
     in if d < 1 / 2 then f
        else if 1 / 2 < d then f + 1
        else if even f then f else f + 1)"

definition f64round :: "rat \<Rightarrow> rat" where
  "f64round x =
    (if x = 0 then 0
     else let u = pow2 (f64exp \<bar>x\<bar> - 52)
          in sgn x * (of_int (roundEven (\<bar>x\<bar> / u)) * u))"

definition fadd :: "rat \<Rightarrow> rat \<Rightarrow> rat" where
  "fadd a b = f64round (a + b)"

definition fsub :: "rat \<Rightarrow> rat \<Rightarrow> rat" where
  "fsub a b = f64round (a - b)"

definition fmul :: "rat \<Rightarrow> rat \<Rightarrow> rat" where
  "fmul a b = f64round (a * b)"

text \<open>The conversion \<^verbatim>\<open>int32(f)\<close> of a float: the fraction is discarded.\<close>

definition int32OfFloat :: "rat \<Rightarrow> int" where
  "int32OfFloat x = wrap32 (if 0 \<le> x then \<lfloor>x\<rfloor> else \<lceil>x\<rceil>)"

datatype float64 = Finite rat | NaN | PosInf | NegInf

fun fle :: "float64 \<Rightarrow> rat \<Rightarrow> bool" where
  "fle (Finite r) c = (r \<le> c)"
| "fle NegInf c = True"
| "fle _ c = False"

fun fge :: "float64 \<Rightarrow> rat \<Rightarrow> bool" where
  "fge (Finite r) c = (c \<le> r)"
| "fge PosInf c = True"
| "fge _ c = False"

fun ratLess :: "rat \<Rightarrow> float64 \<Rightarrow> bool" where
  "ratLess x (Finite r) = (x < r)"
| "ratLess x PosInf = True"
| "ratLess x _ = False"

section \<open>Configuration and messages\<close>

record Config =
  BaseDelayMs :: int
  JitterMs :: int
  PerTokenDelayMs :: int
  ErrorRate :: float64
  ErrorMode :: string
  DefaultTokens :: int
  ChunkSize :: int
  StreamDelayMinMs :: int
  StreamDelayMaxMs :: int
  EchoPrompt :: bool
  Randomize :: bool
  TTFTMinMs :: int
  TTFTMaxMs :: int
  TokensPerSec :: int
  DebugOutputChars :: int
  MaxOutputChars :: int
  StrictTokenMode :: bool

record ChatMessage =
  Role :: string
  Content :: string

text \<open>\<open>MaxTokens\<close> is an \<^verbatim>\<open>int32\<close> field of the request message.\<close>

record ChatCompletionRequest =
  Model :: string
  SystemPrompt :: string
  UserPrompt :: string
  Context :: "ChatMessage list"
  MaxTokens :: int

record ChatCompletionResponse =
  OutputText :: string
  RFinishReason :: string
  RPromptTokens :: int
  RCompletionTokens :: int
  RTotalTokens :: int
  RLatencyMs :: int

record ChatCompletionChunkResponse =
  Type :: string
  Text :: string
  Index :: int
  FinishReason :: string
  PromptTokens :: int
  CompletionTokens :: int
  TotalTokens :: int
  LatencyMs :: int

datatype code = ResourceExhausted | Internal

text \<open>The errors a call can return: the injected status error, the two errors of a finished
  context, and an error of the transport's \<^verbatim>\<open>Send\<close>, given by its message.\<close>

datatype err = Status code string | Canceled | DeadlineExceeded | Transport string

fun codeName :: "code \<Rightarrow> string" where
  "codeName ResourceExhausted = ''ResourceExhausted''"
| "codeName Internal = ''Internal''"

fun errorString :: "err \<Rightarrow> string" where
  "errorString (Status c m) = ''rpc error: code = '' @ codeName c @ '' desc = '' @ m"
| "errorString Canceled = ''context canceled''"
| "errorString DeadlineExceeded = ''context deadline exceeded''"
| "errorString (Transport m) = m"

text \<open>How a Go function ends: it returns a value, returns an error, or panics.\<close>

datatype 'a result = Value 'a | Failure err | GoPanic string

section \<open>Helpers of the service (package grpc)\<close>

definition defaultInt :: "int \<Rightarrow> int \<Rightarrow> int" where
  "defaultInt v def = (if v = 0 then def else v)"

definition shouldFail :: "float64 \<Rightarrow> rng \<Rightarrow> bool \<times> rng" where
  "shouldFail rate g =
    (if fle rate 0 then (False, g)
     else if fge rate 1 then (True, g)
     else (ratLess (fst (RandFloat64 g)) rate, snd (RandFloat64 g)))"

definition pickGrpcErrorCode :: "golib \<Rightarrow> string \<Rightarrow> rng \<Rightarrow> code \<times> rng" where
  "pickGrpcErrorCode L mode g =
    (let m = ToLower L (TrimSpace mode) in
     if m \<in> set [''429'', ''resource_exhausted'', ''rate_limit'', ''rate limit'']
     then (ResourceExhausted, g)
     else if m \<in> set [''500'', ''internal'', ''server_error'']
     then (Internal, g)
     else (if fst (RandIntn 2 g) = 0 then ResourceExhausted else Internal, snd (RandIntn 2 g)))"

text \<open>The closure \<^verbatim>\<open>pickFrac\<close> of \<^verbatim>\<open>pickTargetTokens\<close>; \<open>maxTokens\<close>, \<open>minT\<close> and \<open>maxT\<close> are
  \<^verbatim>\<open>int32\<close>.\<close>

definition pickFrac :: "int \<Rightarrow> rat \<Rightarrow> rat \<Rightarrow> rng \<Rightarrow> int \<times> rng" where
  "pickFrac maxTokens minF maxF g =
    (let minT = int32OfFloat (fmul (of_int maxTokens) minF);
         maxT = int32OfFloat (fmul (of_int maxTokens) maxF);
         minT = (if minT < 1 then 1 else minT);
         maxT = (if maxT < minT then minT else maxT)
     in if maxT = minT then (minT, g)
        else (wrap32 (minT + wrap32 (fst (RandIntn (wrap32 (maxT - minT + 1)) g))),
              snd (RandIntn (wrap32 (maxT - minT + 1)) g)))"

definition pickTargetTokens :: "int \<Rightarrow> int \<Rightarrow> rng \<Rightarrow> int \<times> rng" where
  "pickTargetTokens maxTokens promptRunes g =
    (let maxTokens = (if maxTokens \<le> 0 then 128 else maxTokens);
         pShort = f64round (58 / 100);
         pNormal = f64round (34 / 100);
         pLong = f64round (7 / 100);
         pShort = (if promptRunes > 1200 then fsub pShort (f64round (10 / 100))
                   else if promptRunes > 600 then fsub pShort (f64round (6 / 100))
                   else pShort);
         pNormal = (if promptRunes > 1200 then fadd pNormal (f64round (6 / 100))
                    else if promptRunes > 600 then fadd pNormal (f64round (4 / 100))
                    else pNormal);
         pLong = (if promptRunes > 1200 then fadd pLong (f64round (3 / 100))
                  else if promptRunes > 600 then fadd pLong (f64round (2 / 100))
                  else pLong);
         pShort = (if pShort < f64round (10 / 100) then f64round (10 / 100) else pShort);
         r = fst (RandFloat64 g);
         g1 = snd (RandFloat64 g)
     in if r < pShort then pickFrac maxTokens (f64round (5 / 100)) (f64round (22 / 100)) g1
        else if r < fadd pShort pNormal
        then pickFrac maxTokens (f64round (22 / 100)) (f64round (62 / 100)) g1
        else if r < fadd (fadd pShort pNormal) pLong
        then pickFrac maxTokens (f64round (62 / 100)) (f64round (92 / 100)) g1
        else pickFrac maxTokens (f64round (92 / 100)) 1 g1)"

definition baseDelayMs :: "Config \<Rightarrow> int" where
  "baseDelayMs cfg = defaultInt (BaseDelayMs cfg) 0"

definition jitterMs :: "Config \<Rightarrow> rng \<Rightarrow> int \<times> rng" where
  "jitterMs cfg g =
    (let j = defaultInt (JitterMs cfg) 0 in
     if j \<le> 0 then (0, g) else RandIntn (wrap64 (j + 1)) g)"

definition chunkSize :: "Config \<Rightarrow> int" where
  "chunkSize cfg = defaultInt (ChunkSize cfg) 12"

definition ttftMs :: "Config \<Rightarrow> rng \<Rightarrow> int \<times> rng" where
  "ttftMs cfg g =
    (let mn = defaultInt (TTFTMinMs cfg) 0;
         mx = defaultInt (TTFTMaxMs cfg) 0
     in if mn \<le> 0 \<and> mx \<le> 0 then (0, g)
        else let mn = (if mn \<le> 0 then mx else mn);
                 mx = (if mx \<le> 0 then mn else mx);
                 mx = (if mx < mn then mn else mx)
             in if mx = mn then (mn, g)
                else (wrap64 (mn + fst (RandIntn (wrap64 (mx - mn + 1)) g)),
                      snd (RandIntn (wrap64 (mx - mn + 1)) g)))"

definition tokensPerSec :: "Config \<Rightarrow> int" where
  "tokensPerSec cfg = defaultInt (TokensPerSec cfg) 0"

text \<open>\<^verbatim>\<open>sleepStreamGap\<close> and its copy \<^verbatim>\<open>sleepSSEStreamGap\<close> compute a duration from the
  configuration, the chunk and at most one draw, and sleep. The time slept is not part of
  the model; what remains is the draw.\<close>

definition sleepStreamGap :: "Config \<Rightarrow> string \<Rightarrow> rng \<Rightarrow> rng" where
  "sleepStreamGap cfg delta g =
    (let mn = defaultInt (StreamDelayMinMs cfg) 0;
         mx = defaultInt (StreamDelayMaxMs cfg) 0
     in if mx > 0
        then (let mx = (if mx < mn then mn else mx)
              in if mx > mn then snd (RandIntn (wrap64 (mx - mn + 1)) g) else g)
        else g)"

definition buildPromptForTokens :: "golib \<Rightarrow> ChatCompletionRequest \<Rightarrow> string" where
  "buildPromptForTokens L req =
    (let sp = TrimSpace (SystemPrompt req);
         b = (if sp \<noteq> [] then ''[system]\<newline>'' @ sp @ ''\<newline>\<newline>'' else []);
         b = foldl (\<lambda>b m.
               let role = TrimSpace (Role m);
                   content = TrimSpace (Content m)
               in if role = [] \<and> content = [] then b
                  else b @ ''['' @ (if role = [] then ''unknown'' else role) @ '']\<newline>''
                        @ content @ ''\<newline>\<newline>'')
             b (Context req);
         up = TrimSpace (UserPrompt req);
         b = (if up \<noteq> [] then b @ ''[user]\<newline>'' @ up else b)
     in b)"

section \<open>The unary call\<close>

text \<open>What the call sees of its surroundings: the error of its context after the
  simulated compute time, if the context is finished by then, and the time that
  \<^verbatim>\<open>time.Since(start)\<close> reads on the monotonic clock at the end, in nanoseconds.\<close>

record callEnv =
  ctxErrU :: "err option"
  elapsedU :: nat

definition milliseconds :: "nat \<Rightarrow> int" where
  "milliseconds ns = int (ns div 1000000)"

text \<open>The token budget of a request: \<^verbatim>\<open>if maxTokens <= 0 { maxTokens =
  int32(defaultInt(s.cfg.DefaultTokens, 128)) }\<close>.\<close>

definition requestTokens :: "Config \<Rightarrow> int \<Rightarrow> int" where
  "requestTokens cfg maxTokens =
    (if maxTokens \<le> 0 then wrap32 (defaultInt (DefaultTokens cfg) 128) else maxTokens)"

text \<open>\<^verbatim>\<open>ChatCompletion\<close>. The compute time is slept and not modelled, but its computation
  divides by \<^verbatim>\<open>int32(tps)\<close>, which panics when that conversion is 0.\<close>

definition ChatCompletion ::
  "golib \<Rightarrow> Config \<Rightarrow> callEnv \<Rightarrow> ChatCompletionRequest \<Rightarrow> rng
     \<Rightarrow> ChatCompletionResponse result \<times> rng" where
  "ChatCompletion L cfg env req g =
    (let (fail, g) = shouldFail (ErrorRate cfg) g in
     if fail
     then (let (c, g) = pickGrpcErrorCode L (ErrorMode cfg) g
           in (Failure (Status c ''mock error''), g))
     else
       let maxTokens = requestTokens cfg (MaxTokens req);
           effectiveMaxTokens = maxTokens;
           prompt = buildPromptForTokens L req;
           (effectiveMaxTokens, g) =
             (if Randomize cfg then pickTargetTokens maxTokens (int (length (runes prompt))) g
              else (effectiveMaxTokens, g));
           out = BuildOutput (Quote L) prompt effectiveMaxTokens (EchoPrompt cfg)
                   (StrictTokenMode cfg) (DebugOutputChars cfg) (MaxOutputChars cfg);
           pt = wrap32 (ApproxTokens prompt);
           ct = wrap32 (ApproxTokens out);
           (j, g) = jitterMs cfg g;
           (t, g) = ttftMs cfg g;
           tps = tokensPerSec cfg
       in if tps > 0 \<and> wrap32 tps = 0 then (GoPanic ''integer divide by zero'', g)
          else case ctxErrU env of
                 Some e \<Rightarrow> (Failure e, g)
               | None \<Rightarrow>
                   (Value \<lparr> OutputText = out, RFinishReason = ''stop'', RPromptTokens = pt,
                            RCompletionTokens = ct, RTotalTokens = wrap32 (pt + ct),
                            RLatencyMs = milliseconds (elapsedU env) \<rparr>, g))"

section \<open>The streaming call\<close>

text \<open>
  The surroundings of a stream: the context of the stream is finished once \<open>cancelAfter\<close>
  calls of \<^verbatim>\<open>Send\<close> have been made (never, for \<open>None\<close>), and \<^verbatim>\<open>ctx.Err()\<close> is then \<open>ctxErr\<close>;
  the \<open>n\<close>-th call of \<^verbatim>\<open>Send\<close>, counted from 0, returns \<open>sendErr n\<close>, the error of the transport
  if there is one (a peer that is gone, a message the transport refuses to encode);
  \<open>elapsed\<close> is the reading of \<^verbatim>\<open>time.Since(start)\<close> for the final event. The state is the random source and the
  messages handed to \<^verbatim>\<open>Send\<close> so far, in order. A cancellation that arrives during a sleep
  is seen by the check that follows the sleep, where the number of sends is the same, so
  counting sends loses no trace of the call.
\<close>

record streamEnv =
  cancelAfter :: "nat option"
  ctxErr :: err
  sendErr :: "nat \<Rightarrow> err option"
  elapsed :: nat

record streamState =
  rngS :: rng
  sent :: "ChatCompletionChunkResponse list"

definition ctxError :: "streamEnv \<Rightarrow> streamState \<Rightarrow> err option" where
  "ctxError env st =
    (case cancelAfter env of
       None \<Rightarrow> None
     | Some k \<Rightarrow> if k \<le> length (sent st) then Some (ctxErr env) else None)"

definition Send ::
  "streamEnv \<Rightarrow> ChatCompletionChunkResponse \<Rightarrow> streamState \<Rightarrow> err option \<times> streamState" where
  "Send env c st = (sendErr env (length (sent st)), st\<lparr>sent := sent st @ [c]\<rparr>)"

definition emptyChunk :: ChatCompletionChunkResponse where
  "emptyChunk = \<lparr> Type = [], Text = [], Index = 0, FinishReason = [], PromptTokens = 0,
                  CompletionTokens = 0, TotalTokens = 0, LatencyMs = 0 \<rparr>"

definition deltaChunk :: "string \<Rightarrow> ChatCompletionChunkResponse" where
  "deltaChunk delta = emptyChunk\<lparr>Type := ''output_text.delta'', Text := delta, Index := 0\<rparr>"

definition failedChunk :: "string \<Rightarrow> ChatCompletionChunkResponse" where
  "failedChunk reason =
     emptyChunk\<lparr>Type := ''failed'', Text := [], Index := 0, FinishReason := reason\<rparr>"

definition doneChunk :: "int \<Rightarrow> int \<Rightarrow> int \<Rightarrow> ChatCompletionChunkResponse" where
  "doneChunk pt ct ms =
     \<lparr> Type = ''output_text.done'', Text = [], Index = 0, FinishReason = ''stop'',
       PromptTokens = pt, CompletionTokens = ct, TotalTokens = wrap32 (pt + ct),
       LatencyMs = ms \<rparr>"

text \<open>
  The chunk loop, \<^verbatim>\<open>for i := 0; i < len(out); i += chunkSize\<close>. A chunk size of 0 would
  keep it running for ever, so it is a partial function; a negative one makes the slice
  \<^verbatim>\<open>out[i:end]\<close> panic. After the first round \<open>chunkSize \<le> i < len(out)\<close>, so the sum
  \<open>i + chunkSize\<close> stays below twice the length of a string in memory and does not wrap.
\<close>

partial_function (option) streamLoop ::
  "Config \<Rightarrow> streamEnv \<Rightarrow> string \<Rightarrow> int \<Rightarrow> int \<Rightarrow> streamState
     \<Rightarrow> (unit result \<times> streamState) option" where
  "streamLoop cfg env out cs i st =
    (if i < int (length out) then
       (case ctxError env st of
          Some e \<Rightarrow> Some (Failure e, st)
        | None \<Rightarrow>
            (let end = (if i + cs > int (length out) then int (length out) else i + cs) in
             if i < 0 \<or> end < i then Some (GoPanic ''slice bounds out of range'', st)
             else
               (let delta = take (nat (end - i)) (drop (nat i) out);
                    st1 = snd (Send env (deltaChunk delta) st)
                in case fst (Send env (deltaChunk delta) st) of
                     Some e \<Rightarrow> Some (Failure e, st1)
                   | None \<Rightarrow>
                       (let st2 = st1\<lparr>rngS := sleepStreamGap cfg delta (rngS st1)\<rparr>
                        in case ctxError env st2 of
                             Some e \<Rightarrow> Some (Failure e, st2)
                           | None \<Rightarrow> streamLoop cfg env out cs (i + cs) st2))))
     else Some (Value (), st))"

text \<open>The delay before the first token, as a \<^verbatim>\<open>time.Duration\<close>.\<close>

definition preDelay :: "Config \<Rightarrow> rng \<Rightarrow> int \<times> rng" where
  "preDelay cfg g =
    (let (j, g) = jitterMs cfg g;
         (t, g) = ttftMs cfg g
     in (wrap64 (wrap64 (wrap64 (baseDelayMs cfg + j) + t) * 1000000), g))"

text \<open>The effective chunk size of a stream.\<close>

definition streamChunkSize :: "Config \<Rightarrow> rng \<Rightarrow> int \<times> rng" where
  "streamChunkSize cfg g =
    (let cs = chunkSize cfg;
         cs = (if cs \<le> 0 then 12 else cs)
     in if Randomize cfg \<and> cs > 1
        then (let j = cs div 3;
                  j = (if j < 1 then 1 else j);
                  (k, g) = RandIntn (j * 2 + 1) g;
                  cs = wrap64 ((cs - j) + k);
                  cs = (if cs < 1 then 1 else cs)
              in (cs, g))
        else (cs, g))"

text \<open>What a stream computes between the delay and the loop: the output, the chunk size
  and the two token counts.\<close>

definition streamPlan ::
  "golib \<Rightarrow> Config \<Rightarrow> ChatCompletionRequest \<Rightarrow> rng \<Rightarrow> (string \<times> int \<times> int \<times> int) \<times> rng" where
  "streamPlan L cfg req g =
    (let maxTokens = requestTokens cfg (MaxTokens req);
         effectiveMaxTokens = maxTokens;
         prompt = buildPromptForTokens L req;
         (effectiveMaxTokens, g) =
           (if Randomize cfg then pickTargetTokens maxTokens (int (length (runes prompt))) g
            else (effectiveMaxTokens, g));
         (cs, g) = streamChunkSize cfg g;
         out = BuildOutput (Quote L) prompt effectiveMaxTokens (EchoPrompt cfg)
                 (StrictTokenMode cfg) (DebugOutputChars cfg) (MaxOutputChars cfg);
         pt = wrap32 (ApproxTokens prompt);
         ct = wrap32 (ApproxTokens out)
     in ((out, cs, pt, ct), g))"

text \<open>The body of \<^verbatim>\<open>ChatCompletionStream\<close>, up to its \<^verbatim>\<open>return\<close>.\<close>

definition streamBody ::
  "golib \<Rightarrow> Config \<Rightarrow> streamEnv \<Rightarrow> ChatCompletionRequest \<Rightarrow> streamState
     \<Rightarrow> (unit result \<times> streamState) option" where
  "streamBody L cfg env req st =
    (let (fail, g) = shouldFail (ErrorRate cfg) (rngS st) in
     if fail
     then (let (c, g) = pickGrpcErrorCode L (ErrorMode cfg) g
           in Some (Failure (Status c ''mock error''), st\<lparr>rngS := g\<rparr>))
     else
       let (pre, g) = preDelay cfg g;
           st = st\<lparr>rngS := g\<rparr>
       in case (if pre > 0 then ctxError env st else None) of
            Some e \<Rightarrow> Some (Failure e, st)
          | None \<Rightarrow>
              (let ((out, cs, pt, ct), g) = streamPlan L cfg req g;
                   st = st\<lparr>rngS := g\<rparr>
               in case streamLoop cfg env out cs 0 st of
                    None \<Rightarrow> None
                  | Some (Value u, st) \<Rightarrow>
                      (case fst (Send env (doneChunk pt ct (milliseconds (elapsed env))) st) of
                         Some e \<Rightarrow>
                           Some (Failure e,
                                 snd (Send env (doneChunk pt ct (milliseconds (elapsed env))) st))
                       | None \<Rightarrow>
                           Some (Value (),
                                 snd (Send env (doneChunk pt ct (milliseconds (elapsed env))) st)))
                  | Some (r, st) \<Rightarrow> Some (r, st)))"

text \<open>\<^verbatim>\<open>ChatCompletionStream\<close>: the body, then the deferred function. Whenever the body
  returned an error, whatever the error, the deferred function sends one event of type
  \<^verbatim>\<open>failed\<close> with the error's text and ignores the result of that send. After a panic the
  named result is still \<^verbatim>\<open>nil\<close> and nothing is sent.\<close>

definition ChatCompletionStream ::
  "golib \<Rightarrow> Config \<Rightarrow> streamEnv \<Rightarrow> ChatCompletionRequest \<Rightarrow> streamState
     \<Rightarrow> (unit result \<times> streamState) option" where
  "ChatCompletionStream L cfg env req st =
    (case streamBody L cfg env req st of
       None \<Rightarrow> None
     | Some (Failure e, st) \<Rightarrow>
         Some (Failure e, snd (Send env (failedChunk (errorString e)) st))
     | Some (r, st) \<Rightarrow> Some (r, st))"

section \<open>The text-event stream over HTTP\<close>

record StreamChoice =
  CIndex :: int
  DeltaContent :: string
  DeltaRole :: string
  CFinishReason :: "string option"

record StreamChunk =
  ID :: string
  Object :: string
  Created :: int
  SModel :: string
  Choices :: "StreamChoice list"

text \<open>
  \<^verbatim>\<open>json.Marshal\<close>. A frame is kept as the value its JSON text denotes, the value a reader
  of the stream decodes. The escapes that the encoder writes are undone by every decoder;
  what the encoder changes is a string that is not valid UTF-8: it decodes the string rune
  by rune and writes U+FFFD for every byte that is not part of a well-formed encoding. So
  a string arrives as the concatenation of its runes. The encoder returns no error for a
  value of these types (strings, integers, a slice of structs).
\<close>

definition toValidUTF8 :: "string \<Rightarrow> string" where
  "toValidUTF8 s = concat (runes s)"

definition jsonChoice :: "StreamChoice \<Rightarrow> StreamChoice" where
  "jsonChoice c =
    \<lparr> CIndex = CIndex c, DeltaContent = toValidUTF8 (DeltaContent c),
      DeltaRole = toValidUTF8 (DeltaRole c),
      CFinishReason = map_option toValidUTF8 (CFinishReason c) \<rparr>"

definition jsonMarshal :: "StreamChunk \<Rightarrow> StreamChunk" where
  "jsonMarshal v =
    \<lparr> ID = toValidUTF8 (ID v), Object = toValidUTF8 (Object v), Created = Created v,
      SModel = toValidUTF8 (SModel v), Choices = map jsonChoice (Choices v) \<rparr>"

text \<open>
  What reaches the response body, frame by frame: \<open>Data j\<close> is a frame \<^verbatim>\<open>data: <json>\<close> whose
  JSON text denotes the value \<open>j\<close>, \<open>DoneMarker\<close> the frame \<^verbatim>\<open>data: [DONE]\<close>, and \<open>Plain m\<close> the
  text that \<^verbatim>\<open>http.Error\<close> writes.
\<close>

datatype frame = Data StreamChunk | DoneMarker | Plain string

text \<open>
  The surroundings of a request: whether the response writer is an \<^verbatim>\<open>http.Flusher\<close>; the
  request's context is finished once \<open>doneAfter\<close> frames have reached the body; the \<open>n\<close>-th
  operation on the buffered writer, counted from 0, fails when \<open>ioErr n\<close>; \<open>nowUnix\<close> is the
  clock. The state holds the random source, the status code and the headers of the
  response, the body flushed so far, the frames still in the buffer, and the count of
  operations on the buffered writer.
\<close>

record httpEnv =
  flusher :: bool
  doneAfter :: "nat option"
  ioErr :: "nat \<Rightarrow> bool"
  nowUnix :: int

record httpState =
  rngH :: rng
  status :: int
  header :: "string \<rightharpoonup> string"
  body :: "frame list"
  buf :: "frame list"
  ios :: nat

definition httpError :: "string \<Rightarrow> int \<Rightarrow> httpState \<Rightarrow> httpState" where
  "httpError msg c st =
    st\<lparr> header := (header st)(''Content-Type'' \<mapsto> ''text/plain; charset=utf-8'',
                                 ''X-Content-Type-Options'' \<mapsto> ''nosniff''),
        status := c,
        body := body st @ [Plain (msg @ ''\<newline>'')] \<rparr>"

definition ctxDone :: "httpEnv \<Rightarrow> httpState \<Rightarrow> bool" where
  "ctxDone env st =
    (case doneAfter env of None \<Rightarrow> False | Some k \<Rightarrow> k \<le> length (body st))"

text \<open>Printing a frame into the buffered writer, and flushing it; the first component
  of the result tells whether the operation returned an error.\<close>

definition bwPrint :: "httpEnv \<Rightarrow> frame \<Rightarrow> httpState \<Rightarrow> bool \<times> httpState" where
  "bwPrint env f st =
    (if ioErr env (ios st) then (True, st\<lparr>ios := Suc (ios st)\<rparr>)
     else (False, st\<lparr>ios := Suc (ios st), buf := buf st @ [f]\<rparr>))"

text \<open>\<^verbatim>\<open>writeSSE\<close> marshals the chunk and prints the frame \<^verbatim>\<open>data: <json>\<close>.\<close>

definition writeSSE :: "httpEnv \<Rightarrow> StreamChunk \<Rightarrow> httpState \<Rightarrow> bool \<times> httpState" where
  "writeSSE env v st = bwPrint env (Data (jsonMarshal v)) st"

definition bwFlush :: "httpEnv \<Rightarrow> httpState \<Rightarrow> bool \<times> httpState" where
  "bwFlush env st =
    (if ioErr env (ios st) then (True, st\<lparr>ios := Suc (ios st)\<rparr>)
     else (False, st\<lparr>ios := Suc (ios st), body := body st @ buf st, buf := []\<rparr>))"

definition sleepSSEStreamGap :: "Config \<Rightarrow> string \<Rightarrow> rng \<Rightarrow> rng" where
  "sleepSSEStreamGap cfg delta g =
    (let mn = defaultInt (StreamDelayMinMs cfg) 0;
         mx = defaultInt (StreamDelayMaxMs cfg) 0
     in if mx > 0
        then (let mx = (if mx < mn then mn else mx)
              in if mx > mn then snd (RandIntn (wrap64 (mx - mn + 1)) g) else g)
        else g)"

definition roleFrame :: "string \<Rightarrow> int \<Rightarrow> string \<Rightarrow> StreamChunk" where
  "roleFrame cid created model =
    \<lparr> ID = cid, Object = ''chat.completion.chunk'', Created = created, SModel = model,
      Choices = [\<lparr> CIndex = 0, DeltaContent = [], DeltaRole = ''assistant'',
                   CFinishReason = None \<rparr>] \<rparr>"

definition contentFrame :: "string \<Rightarrow> int \<Rightarrow> string \<Rightarrow> string \<Rightarrow> StreamChunk" where
  "contentFrame cid created model part =
    \<lparr> ID = cid, Object = ''chat.completion.chunk'', Created = created, SModel = model,
      Choices = [\<lparr> CIndex = 0, DeltaContent = part, DeltaRole = [],
                   CFinishReason = None \<rparr>] \<rparr>"

definition lastFrame :: "string \<Rightarrow> int \<Rightarrow> string \<Rightarrow> StreamChunk" where
  "lastFrame cid created model =
    \<lparr> ID = cid, Object = ''chat.completion.chunk'', Created = created, SModel = model,
      Choices = [\<lparr> CIndex = 0, DeltaContent = [], DeltaRole = [],
                   CFinishReason = Some ''stop'' \<rparr>] \<rparr>"

text \<open>
  The content loop of \<^verbatim>\<open>serveChatCompletionSSE\<close>. \<open>Value True\<close>: the loop ran to its end;
  \<open>Value False\<close>: the function returned from inside the loop (the context was finished, or
  a write failed).
\<close>

partial_function (option) sseLoop ::
  "Config \<Rightarrow> httpEnv \<Rightarrow> string \<Rightarrow> string \<Rightarrow> int \<Rightarrow> string \<Rightarrow> int \<Rightarrow> int \<Rightarrow> httpState
     \<Rightarrow> (bool result \<times> httpState) option" where
  "sseLoop cfg env content cid created model cs i st =
    (if i < int (length content) then
       (if ctxDone env st then Some (Value False, st)
        else
          (let end = (if i + cs > int (length content) then int (length content) else i + cs) in
           if i < 0 \<or> end < i then Some (GoPanic ''slice bounds out of range'', st)
           else
             (let part = take (nat (end - i)) (drop (nat i) content);
                  st1 = snd (writeSSE env (contentFrame cid created model part) st)
              in if fst (writeSSE env (contentFrame cid created model part) st)
                 then Some (Value False, st1)
                 else if fst (bwFlush env st1) then Some (Value False, snd (bwFlush env st1))
                 else sseLoop cfg env content cid created model cs (i + cs)
                        ((snd (bwFlush env st1))
                           \<lparr>rngH := sleepSSEStreamGap cfg part (rngH (snd (bwFlush env st1)))\<rparr>))))
     else Some (Value True, st))"

text \<open>The effective chunk size of the text-event stream. There is no guard against a
  negative size here.\<close>

definition sseChunkSize :: "Config \<Rightarrow> int \<Rightarrow> rng \<Rightarrow> int \<times> rng" where
  "sseChunkSize cfg csize g =
    (let cs = defaultInt csize (defaultInt (ChunkSize cfg) 12)
     in if Randomize cfg \<and> cs > 1
        then (let j = cs div 3;
                  j = (if j < 1 then 1 else j);
                  (k, g) = RandIntn (j * 2 + 1) g;
                  cs = wrap64 ((cs - j) + k);
                  cs = (if cs < 1 then 1 else cs)
              in (cs, g))
        else (cs, g))"

definition sseHeaders :: "httpState \<Rightarrow> httpState" where
  "sseHeaders st =
    st\<lparr> header := (header st)(''Content-Type'' \<mapsto> ''text/event-stream'',
                                 ''Cache-Control'' \<mapsto> ''no-cache'',
                                 ''Connection'' \<mapsto> ''keep-alive'') \<rparr>"

text \<open>The end of \<^verbatim>\<open>serveChatCompletionSSE\<close>, after the loop: the frame with the finish
  reason, the sentinel, one flush. The function creates its buffered writer itself
  (\<^verbatim>\<open>bw := bufio.NewWriter(w)\<close>), so the buffer starts empty.\<close>

definition sseFinish :: "httpEnv \<Rightarrow> string \<Rightarrow> int \<Rightarrow> string \<Rightarrow> httpState \<Rightarrow> httpState" where
  "sseFinish env cid created model st =
    (let st1 = snd (writeSSE env (lastFrame cid created model) st) in
     if fst (writeSSE env (lastFrame cid created model) st) then st1
     else if fst (bwPrint env DoneMarker st1) then snd (bwPrint env DoneMarker st1)
     else snd (bwFlush env (snd (bwPrint env DoneMarker st1))))"

definition serveChatCompletionSSE ::
  "golib \<Rightarrow> httpEnv \<Rightarrow> string \<Rightarrow> string \<Rightarrow> int \<Rightarrow> Config \<Rightarrow> int \<Rightarrow> httpState
     \<Rightarrow> (unit result \<times> httpState) option" where
  "serveChatCompletionSSE L env model prompt maxTokens cfg csize st =
    (if \<not> flusher env then Some (Value (), httpError ''streaming unsupported'' 500 st)
     else
       let st = sseHeaders st;
           (rid, g) = RandID (rngH st);
           cid = ''chatcmpl_mock_'' @ rid;
           created = nowUnix env;
           (cs, g) = sseChunkSize cfg csize g;
           content = BuildOutput (Quote L) prompt maxTokens (EchoPrompt cfg)
                       (StrictTokenMode cfg) (DebugOutputChars cfg) (MaxOutputChars cfg);
           st = st\<lparr>rngH := g, buf := []\<rparr>;
           st1 = snd (writeSSE env (roleFrame cid created model) st)
       in if fst (writeSSE env (roleFrame cid created model) st) then Some (Value (), st1)
          else if fst (bwFlush env st1) then Some (Value (), snd (bwFlush env st1))
          else case sseLoop cfg env content cid created model cs 0 (snd (bwFlush env st1)) of
                 None \<Rightarrow> None
               | Some (Value True, st2) \<Rightarrow> Some (Value (), sseFinish env cid created model st2)
               | Some (Value False, st2) \<Rightarrow> Some (Value (), st2)
               | Some (Failure e, st2) \<Rightarrow> Some (Failure e, st2)
               | Some (GoPanic m, st2) \<Rightarrow> Some (GoPanic m, st2))"

text \<open>\<^verbatim>\<open>url.Values.Get\<close> on the parsed query, kept as its list of pairs: the first value of
  the key, or the empty string.\<close>

definition qGet :: "(string \<times> string) list \<Rightarrow> string \<Rightarrow> string" where
  "qGet q k = (case map_of q k of None \<Rightarrow> [] | Some v \<Rightarrow> v)"

definition ChatCompletionSSEHandler ::
  "golib \<Rightarrow> Config \<Rightarrow> httpEnv \<Rightarrow> (string \<times> string) list \<Rightarrow> httpState
     \<Rightarrow> (unit result \<times> httpState) option" where
  "ChatCompletionSSEHandler L cfg env q st =
    (let model = qGet q ''model'';
         model = (if model = [] then ''mock-sse'' else model);
         prompt = qGet q ''prompt''
     in if prompt = [] then Some (Value (), httpError ''prompt is required'' 400 st)
        else
          let maxTokens = DefaultTokens cfg;
              maxTokens = (if qGet q ''max_tokens'' \<noteq> []
                           then (case Atoi L (qGet q ''max_tokens'') of
                                   Some n \<Rightarrow> n | None \<Rightarrow> maxTokens)
                           else maxTokens);
              csize = ChunkSize cfg;
              csize = (if qGet q ''chunk_size'' \<noteq> []
                           then (case Atoi L (qGet q ''chunk_size'') of
                                   Some n \<Rightarrow> n | None \<Rightarrow> csize)
                           else csize)
          in serveChatCompletionSSE L env model prompt maxTokens cfg csize st)"

section \<open>The chunk planner of the specification\<close>

text \<open>Consecutive slices of the given size, the last one possibly shorter; no slices for
  size 0.\<close>

fun chunksOf :: "nat \<Rightarrow> 'a list \<Rightarrow> 'a list list" where
  "chunksOf n [] = []"
| "chunksOf n (x # xs) =
    (if n = 0 then [] else take n (x # xs) # chunksOf n (drop (n - 1) xs))"

text \<open>The texts of the content events of a stream, and the content texts that the frames
  of a body carry: the field \<^verbatim>\<open>content\<close> of each choice of each JSON value, where it is
  present (the encoder omits an empty one).\<close>

definition grpcTexts :: "ChatCompletionChunkResponse list \<Rightarrow> string list" where
  "grpcTexts cs = map Text (filter (\<lambda>c. Type c = ''output_text.delta'') cs)"

fun frameTexts :: "frame \<Rightarrow> string list" where
  "frameTexts (Data v) =
     filter (\<lambda>t. t \<noteq> []) (map DeltaContent (Choices v))"
| "frameTexts _ = []"

definition sseTexts :: "frame list \<Rightarrow> string list" where
  "sseTexts fs = concat (map frameTexts fs)"

section \<open>The loops as folds over the planned chunks\<close>

text \<open>
  The chunk loop of the streaming call, replayed over the list of chunks it is going to
  cut: before each chunk the context is checked, the chunk is sent, the gap is slept, the
  context is checked again. Lemma \<open>streamLoop_runChunks\<close> shows that the index loop of the
  source is this function on \<open>chunksOf chunkSize out\<close> whenever the chunk size is positive.
\<close>

fun runChunks :: "Config \<Rightarrow> streamEnv \<Rightarrow> string list \<Rightarrow> streamState \<Rightarrow> unit result \<times> streamState" where
  "runChunks cfg env [] st = (Value (), st)"
| "runChunks cfg env (d # ds) st =
    (case ctxError env st of
       Some e \<Rightarrow> (Failure e, st)
     | None \<Rightarrow>
        (case fst (Send env (deltaChunk d) st) of
           Some e \<Rightarrow> (Failure e, snd (Send env (deltaChunk d) st))
         | None \<Rightarrow>
            (let st1 = snd (Send env (deltaChunk d) st);
                 st2 = st1\<lparr>rngS := sleepStreamGap cfg d (rngS st1)\<rparr>
             in case ctxError env st2 of
                  Some e \<Rightarrow> (Failure e, st2)
                | None \<Rightarrow> runChunks cfg env ds st2)))"

text \<open>The same for the content loop of the text-event stream (lemma \<open>sseLoop_runFrames\<close>).\<close>

fun runFrames ::
  "Config \<Rightarrow> httpEnv \<Rightarrow> string \<Rightarrow> int \<Rightarrow> string \<Rightarrow> string list \<Rightarrow> httpState
     \<Rightarrow> bool result \<times> httpState" where
  "runFrames cfg env cid created model [] st = (Value True, st)"
| "runFrames cfg env cid created model (d # ds) st =
    (if ctxDone env st then (Value False, st)
     else
       (let st1 = snd (writeSSE env (contentFrame cid created model d) st)
        in if fst (writeSSE env (contentFrame cid created model d) st) then (Value False, st1)
           else if fst (bwFlush env st1) then (Value False, snd (bwFlush env st1))
           else runFrames cfg env cid created model ds
                  ((snd (bwFlush env st1))
                     \<lparr>rngH := sleepSSEStreamGap cfg d (rngH (snd (bwFlush env st1)))\<rparr>)))"

section \<open>Names for what a call computes\<close>

text \<open>
  The plan of a stream that passed the injection check, from the state the call starts
  in: the random source is read by \<open>shouldFail\<close>, then by the delay, then by the plan. Its
  output, its effective chunk size and its final event get names, and so does the
  injected error.
\<close>

definition planOf ::
  "golib \<Rightarrow> Config \<Rightarrow> ChatCompletionRequest \<Rightarrow> streamState \<Rightarrow> (string \<times> int \<times> int \<times> int) \<times> rng" where
  "planOf L cfg req st =
     streamPlan L cfg req (snd (preDelay cfg (snd (shouldFail (ErrorRate cfg) (rngS st)))))"

definition streamOut :: "golib \<Rightarrow> Config \<Rightarrow> ChatCompletionRequest \<Rightarrow> streamState \<Rightarrow> string" where
  "streamOut L cfg req st = fst (fst (planOf L cfg req st))"

definition streamCs :: "golib \<Rightarrow> Config \<Rightarrow> ChatCompletionRequest \<Rightarrow> streamState \<Rightarrow> int" where
  "streamCs L cfg req st = fst (snd (fst (planOf L cfg req st)))"

definition streamDone :: "golib \<Rightarrow> Config \<Rightarrow> streamEnv \<Rightarrow> ChatCompletionRequest \<Rightarrow> streamState \<Rightarrow> ChatCompletionChunkResponse" where
  "streamDone L cfg env req st =
     doneChunk (fst (snd (snd (fst (planOf L cfg req st))))) (snd (snd (snd (fst (planOf L cfg req st)))))
       (milliseconds (elapsed env))"

definition injected :: "golib \<Rightarrow> Config \<Rightarrow> rng \<Rightarrow> err" where
  "injected L cfg g =
     Status (fst (pickGrpcErrorCode L (ErrorMode cfg) (snd (shouldFail (ErrorRate cfg) g)))) ''mock error''"

text \<open>The events a call added to the stream.\<close>

definition newEvents :: "streamState \<Rightarrow> streamState \<Rightarrow> ChatCompletionChunkResponse list" where
  "newEvents st st' = drop (length (sent st)) (sent st')"

text \<open>The same for the text-event stream: its effective chunk size, its content, the
  identifier and the first frame, the state in which the first frame is written, and the
  frames a call added to the body.\<close>

definition sseCs :: "Config \<Rightarrow> int \<Rightarrow> httpState \<Rightarrow> int" where
  "sseCs cfg csize st = fst (sseChunkSize cfg csize (snd (RandID (rngH st))))"

definition sseContent :: "golib \<Rightarrow> Config \<Rightarrow> string \<Rightarrow> int \<Rightarrow> string" where
  "sseContent L cfg prompt maxTokens =
     BuildOutput (Quote L) prompt maxTokens (EchoPrompt cfg) (StrictTokenMode cfg)
       (DebugOutputChars cfg) (MaxOutputChars cfg)"

definition sseCid :: "httpState \<Rightarrow> string" where
  "sseCid st = ''chatcmpl_mock_'' @ fst (RandID (rngH st))"

definition sseStart :: "Config \<Rightarrow> int \<Rightarrow> httpState \<Rightarrow> httpState" where
  "sseStart cfg csize st =
     (sseHeaders st)\<lparr>rngH := snd (sseChunkSize cfg csize (snd (RandID (rngH st)))), buf := []\<rparr>"

definition sseRole :: "httpEnv \<Rightarrow> string \<Rightarrow> httpState \<Rightarrow> StreamChunk" where
  "sseRole env model st = roleFrame (sseCid st) (nowUnix env) model"

definition newFrames :: "httpState \<Rightarrow> httpState \<Rightarrow> frame list" where
  "newFrames st st' = drop (length (body st)) (body st')"


section \<open>The buckets of the target-token randomizer\<close>

text \<open>
  The budget \<^verbatim>\<open>pickTargetTokens\<close> works with, the four fractional ranges it passes to
  \<^verbatim>\<open>pickFrac\<close> (short, normal, long, maxed; each bound is the \<^verbatim>\<open>float64\<close> nearest to the decimal
  in the source), and the token bounds \<^verbatim>\<open>minT\<close> and \<^verbatim>\<open>maxT\<close> that \<^verbatim>\<open>pickFrac\<close> derives from a
  range: the products are truncated, the lower bound is raised to 1 and the upper bound
  to the lower one.
\<close>

definition budget :: "int \<Rightarrow> int" where
  "budget maxTokens = (if maxTokens \<le> 0 then 128 else maxTokens)"

definition buckets :: "(rat \<times> rat) list" where
  "buckets =
    [(f64round (5 / 100), f64round (22 / 100)),
     (f64round (22 / 100), f64round (62 / 100)),
     (f64round (62 / 100), f64round (92 / 100)),
     (f64round (92 / 100), 1)]"

definition bucketMin :: "int \<Rightarrow> rat \<times> rat \<Rightarrow> int" where
  "bucketMin M b = max 1 (int32OfFloat (fmul (of_int M) (fst b)))"

definition bucketMax :: "int \<Rightarrow> rat \<times> rat \<Rightarrow> int" where
  "bucketMax M b = max (bucketMin M b) (int32OfFloat (fmul (of_int M) (snd b)))"

section \<open>Scenarios\<close>

text \<open>The configuration of the repository's tests (every delay 0, no injected error, no
  randomization), a request with a user prompt and a budget only, surroundings in which
  nothing is cancelled and nothing fails, and fresh states.\<close>

definition zeroRng :: rng where
  "zeroRng = (\<lambda>_. 0)"

definition baseConfig :: Config where
  "baseConfig =
    \<lparr> BaseDelayMs = 0, JitterMs = 0, PerTokenDelayMs = 0, ErrorRate = Finite 0,
      ErrorMode = ''mixed'', DefaultTokens = 0, ChunkSize = 7, StreamDelayMinMs = 0,
      StreamDelayMaxMs = 0, EchoPrompt = False, Randomize = False, TTFTMinMs = 0,
      TTFTMaxMs = 0, TokensPerSec = 0, DebugOutputChars = 0, MaxOutputChars = 0,
      StrictTokenMode = False \<rparr>"

definition request :: "string \<Rightarrow> int \<Rightarrow> ChatCompletionRequest" where
  "request p m =
    \<lparr> Model = ''mock-stream'', SystemPrompt = [], UserPrompt = p, Context = [], MaxTokens = m \<rparr>"

definition quietEnv :: streamEnv where
  "quietEnv = \<lparr> cancelAfter = None, ctxErr = Canceled, sendErr = (\<lambda>_. None), elapsed = 0 \<rparr>"

definition freshStream :: streamState where
  "freshStream = \<lparr> rngS = zeroRng, sent = [] \<rparr>"

definition quietCall :: callEnv where
  "quietCall = \<lparr> ctxErrU = None, elapsedU = 0 \<rparr>"

definition quietHttp :: httpEnv where
  "quietHttp = \<lparr> flusher = True, doneAfter = None, ioErr = (\<lambda>_. False), nowUnix = 0 \<rparr>"

definition freshResponse :: httpState where
  "freshResponse =
    \<lparr> rngH = zeroRng, status = 200, header = Map.empty, body = [], buf = [], ios = 0 \<rparr>"

section \<open>The specification's sizing rule\<close>

text \<open>The length the specification gives for the synthesized output: the target raised
  to the floor, then lowered to the ceiling when there is one.\<close>

definition clamp :: "int \<Rightarrow> int \<Rightarrow> int option \<Rightarrow> int" where
  "clamp target lo hi =
    (let t = max target lo in case hi of None \<Rightarrow> t | Some c \<Rightarrow> min t c)"

definition specTarget :: "bool \<Rightarrow> int \<Rightarrow> int \<Rightarrow> int" where
  "specTarget strictTokenMode debugChars maxTokens =
    (if strictTokenMode then (if maxTokens \<le> 0 then 128 else maxTokens) * 4
     else if debugChars \<noteq> 0 then debugChars else 512)"

definition specCeiling :: "int \<Rightarrow> int option" where
  "specCeiling maxChars =
    (if maxChars = 0 then Some 4096 else if maxChars < 0 then None else Some maxChars)"

section \<open>Properties of the token estimator\<close>

lemma runes_Nil_iff: "runes s = [] \<longleftrightarrow> s = []"
  by (cases s) simp_all

lemma runeWidth_pos: "0 < runeWidth (b # bs)"
  by (simp add: Let_def split: list.splits)

lemma toValidUTF8_Nil_iff [simp]: "toValidUTF8 s = [] \<longleftrightarrow> s = []"
proof (cases s)
  case Nil
  then show ?thesis by (simp add: toValidUTF8_def)
next
  case (Cons b bs)
  have "take (runeWidth (b # bs)) (b # bs) \<noteq> []"
    using runeWidth_pos [of b bs] by (cases "runeWidth (b # bs)") simp_all
  with Cons show ?thesis by (simp add: toValidUTF8_def RuneError_def)
qed

text \<open>Text of 7-bit characters is its own decoding.\<close>

lemma runes_ascii: "\<forall>c \<in> set s. (of_char c :: nat) < 0x80 \<Longrightarrow> runes s = map (\<lambda>c. [c]) s"
  by (induction s) (simp_all add: Let_def)

lemma toValidUTF8_ascii: "\<forall>c \<in> set s. (of_char c :: nat) < 0x80 \<Longrightarrow> toValidUTF8 s = s"
  by (simp add: toValidUTF8_def runes_ascii)

lemma ApproxTokens_eq: "ApproxTokens s = (int (length (runes s)) + 3) div 4"
  by (cases s) (simp_all add: ApproxTokens_def Let_def)

lemma ceil4: "(int n + 3) div 4 = \<lceil>(of_nat n :: rat) / 4\<rceil>"
proof -
  have "\<lceil>(of_int (int n) :: rat) / of_int 4\<rceil> = - (- int n div 4)"
    by (rule ceiling_divide_eq_div)
  then show ?thesis by simp
qed

text \<open>
  Claim C9. For every text, \<open>ApproxTokens\<close> is the number of runes divided by four,
  rounded up; it is 0 on the empty text; and a text with at least as many runes as another
  has at least as many tokens.
\<close>

theorem ApproxTokens_ceiling_mono:
  "ApproxTokens s = \<lceil>(of_nat (length (runes s)) :: rat) / 4\<rceil>
   \<and> ApproxTokens [] = 0
   \<and> (length (runes s) \<le> length (runes t) \<longrightarrow> ApproxTokens s \<le> ApproxTokens t)"
proof (intro conjI impI)
  show "ApproxTokens s = \<lceil>(of_nat (length (runes s)) :: rat) / 4\<rceil>"
    by (simp only: ApproxTokens_eq ceil4)
  show "ApproxTokens [] = 0"
    by (simp add: ApproxTokens_def)
  assume "length (runes s) \<le> length (runes t)"
  then show "ApproxTokens s \<le> ApproxTokens t"
    by (simp add: ApproxTokens_eq zdiv_mono1)
qed

theorem ApproxTokens_ceiling_mono_witness:
  "length (runes ''abc'') \<le> length (runes ''abcde'')
   \<and> ApproxTokens ''abc'' = 1 \<and> ApproxTokens ''abcde'' = 2
   \<and> ApproxTokens ''abc'' \<le> ApproxTokens ''abcde''"
  using ApproxTokens_ceiling_mono [of "''abc''" "''abcde''"]
  by (simp add: ApproxTokens_def)

section \<open>Properties of the output synthesizer\<close>

lemma wrap64_id: "- (2 ^ 63) \<le> x \<Longrightarrow> x < 2 ^ 63 \<Longrightarrow> wrap64 x = x"
  by (simp add: wrap64_def)

lemma fill_length: "target \<le> int (length (fill s target))"
  by (induction s target rule: fill.induct) (subst fill.simps, simp)

lemma targetLen_pos: "0 < targetLen maxTokens strictTokenMode debugChars maxChars"
  by (simp add: targetLen_def Let_def)

lemma take_fill_length: "0 < t \<Longrightarrow> int (length (take (nat t) (fill s t))) = t"
  using fill_length [of t s] by simp

lemma BuildOutput_length:
  "int (length (BuildOutput quote prompt maxTokens echoPrompt strictTokenMode debugChars maxChars))
     = targetLen maxTokens strictTokenMode debugChars maxChars"
  unfolding BuildOutput_def Let_def by (rule take_fill_length) (rule targetLen_pos)

lemma targetLen_clamp:
  "(strictTokenMode \<Longrightarrow> maxTokens < 2 ^ 61) \<Longrightarrow>
   targetLen maxTokens strictTokenMode debugChars maxChars
     = clamp (specTarget strictTokenMode debugChars maxTokens) 64 (specCeiling maxChars)"
  by (auto simp add: targetLen_def clamp_def specTarget_def specCeiling_def Let_def wrap64_id)

text \<open>
  Claim C4, as the specification states it, fails where \<^verbatim>\<open>maxTokens * 4\<close> leaves the
  64-bit range: with strict token mode and \<open>maxTokens = 2 ^ 61\<close> the product wraps to a
  negative number, the floor makes the output 64 bytes long, and the specification's
  rule gives the ceiling 4096.
\<close>

theorem BuildOutput_length_overflow_counterexample:
  "int (length (BuildOutput id [] (2 ^ 61) False True 0 0))
     \<noteq> clamp (specTarget True 0 (2 ^ 61)) 64 (specCeiling 0)"
  by (simp add: BuildOutput_length targetLen_def wrap64_def clamp_def specTarget_def
      specCeiling_def)

text \<open>
  Claim C4, amended. For every prompt, echo flag, strict flag, debug size and cap, and every
  token budget that in strict mode is below \<open>2 ^ 61\<close> (so that four times the budget is a
  64-bit integer), the
  output is exactly as long as the clamped target: the target is the debug size if
  non-zero, else 512, or four times the budget in strict mode (128 for a budget that is
  not positive); the floor is 64; the ceiling is the cap, 4096 for cap 0, none for a
  negative cap. The echo prefix does not change the length.
\<close>

theorem BuildOutput_length_clamp:
  "(strictTokenMode \<Longrightarrow> maxTokens < 2 ^ 61) \<Longrightarrow>
   int (length (BuildOutput quote prompt maxTokens echoPrompt strictTokenMode debugChars maxChars))
     = clamp (specTarget strictTokenMode debugChars maxTokens) 64 (specCeiling maxChars)"
  by (simp only: BuildOutput_length targetLen_clamp)

theorem BuildOutput_length_clamp_witness:
  "(12 :: int) < 2 ^ 61
   \<and> int (length (BuildOutput id ''tell me a joke'' 12 True True 0 0)) = 64
   \<and> clamp (specTarget True 0 12) 64 (specCeiling 0) = 64"
  using BuildOutput_length_clamp [where maxTokens = 12 and quote = id
      and prompt = "''tell me a joke''" and echoPrompt = True and strictTokenMode = True
      and debugChars = 0 and maxChars = 0]
  by (simp add: clamp_def specTarget_def specCeiling_def)

section \<open>The chunk planner and the chunk loop\<close>

lemma chunksOf_step:
  "0 < n \<Longrightarrow> xs \<noteq> [] \<Longrightarrow> chunksOf n xs = take n xs # chunksOf n (drop n xs)"
  by (cases xs; cases n) simp_all

lemma chunksOf_Nil [simp]: "chunksOf n [] = []"
  by simp

lemma concat_chunksOf: "0 < n \<Longrightarrow> concat (chunksOf n xs) = xs"
proof (induction "length xs" arbitrary: xs rule: less_induct)
  case less
  show ?case
  proof (cases "xs = []")
    case True then show ?thesis by simp
  next
    case False
    with less.prems have "length (drop n xs) < length xs" by simp
    with less False show ?thesis by (simp add: chunksOf_step)
  qed
qed

lemma length_chunksOf: "0 < n \<Longrightarrow> length (chunksOf n xs) = (length xs + n - 1) div n"
proof (induction "length xs" arbitrary: xs rule: less_induct)
  case less
  show ?case
  proof (cases "xs = []")
    case True with less.prems show ?thesis by simp
  next
    case False
    with less.prems have lt: "length (drop n xs) < length xs" by simp
    have ih: "length (chunksOf n (drop n xs)) = (length (drop n xs) + n - 1) div n"
      using less.hyps [OF lt less.prems] .
    show ?thesis
    proof (cases "length xs \<le> n")
      case True
      with False less.prems have "(length xs + n - 1) div n = 1"
        by (cases xs) (simp_all add: div_eq_dividend_iff Suc_le_eq  div_nat_eqI)
      with True False less.prems show ?thesis by (simp add: chunksOf_step)
    next
      case F2: False
      then have "length xs + n - 1 = (length xs - n + n - 1) + n" using less.prems by simp
      then have "(length xs + n - 1) div n = Suc ((length xs - n + n - 1) div n)"
        using less.prems by (metis div_add_self2 less_numeral_extra(3) Suc_eq_plus1)
      with ih False less.prems show ?thesis by (simp add: chunksOf_step)
    qed
  qed
qed

lemma chunksOf_bounds: "0 < n \<Longrightarrow> c \<in> set (chunksOf n xs) \<Longrightarrow> c \<noteq> [] \<and> length c \<le> n"
proof (induction "length xs" arbitrary: xs rule: less_induct)
  case less
  show ?case
  proof (cases "xs = []")
    case True with less.prems show ?thesis by simp
  next
    case False
    with less.prems have lt: "length (drop n xs) < length xs" by simp
    from less.prems False have "c = take n xs \<or> c \<in> set (chunksOf n (drop n xs))"
      by (simp add: chunksOf_step)
    then show ?thesis
    proof
      assume "c = take n xs" with False less.prems show ?thesis by simp
    next
      assume "c \<in> set (chunksOf n (drop n xs))"
      with less.hyps [OF lt less.prems(1)] show ?thesis by blast
    qed
  qed
qed

lemma slice_eq:
  assumes "0 \<le> i" "i < int (length out)" "1 \<le> cs"
  shows "take (nat ((if i + cs > int (length out) then int (length out) else i + cs) - i)) (drop (nat i) out)
         = take (nat cs) (drop (nat i) out)"
proof (cases "i + cs > int (length out)")
  case True
  then have "length (drop (nat i) out) \<le> nat cs" "length (drop (nat i) out) \<le> nat (int (length out) - i)"
    using assms by simp_all
  with True show ?thesis by simp
next
  case False
  then show ?thesis by simp
qed

lemma streamLoop_runChunks:
  "1 \<le> cs \<Longrightarrow> 0 \<le> i \<Longrightarrow>
   streamLoop cfg env out cs i st = Some (runChunks cfg env (chunksOf (nat cs) (drop (nat i) out)) st)"
proof (induction "nat (int (length out) - i)" arbitrary: i st rule: less_induct)
  case less
  show ?case
  proof (cases "i < int (length out)")
    case False
    then have "drop (nat i) out = []" using less.prems by simp
    with False show ?thesis by (subst streamLoop.simps) simp
  next
    case True
    then have ne: "drop (nat i) out \<noteq> []" using less.prems by simp
    have lt: "nat (int (length out) - (i + cs)) < nat (int (length out) - i)"
      using True less.prems by simp
    have dd: "drop (nat cs) (drop (nat i) out) = drop (nat (i + cs)) out"
      using less.prems by (simp add: nat_add_distrib add.commute)
    have ih: "\<And>st. streamLoop cfg env out cs (i + cs) st
        = Some (runChunks cfg env (chunksOf (nat cs) (drop (nat (i + cs)) out)) st)"
      using less.hyps [OF lt] less.prems by simp
    have ch: "chunksOf (nat cs) (drop (nat i) out)
        = take (nat cs) (drop (nat i) out) # chunksOf (nat cs) (drop (nat (i + cs)) out)"
      using chunksOf_step [OF _ ne, of "nat cs"] less.prems dd by simp
    have nopanic: "\<not> (i < 0 \<or> (if i + cs > int (length out) then int (length out) else i + cs) < i)"
      using True less.prems by auto
    show ?thesis
      apply (subst streamLoop.simps)
      apply (simp only: True if_True Let_def nopanic if_False slice_eq [OF less.prems(2) True less.prems(1)] ch ih runChunks.simps)
      apply (simp split: option.splits)
      done
  qed
qed

section \<open>Traces of the chunk loop\<close>

lemma Send_simps [simp]:
  "fst (Send env c st) = sendErr env (length (sent st))"
  "sent (snd (Send env c st)) = sent st @ [c]"
  "rngS (snd (Send env c st)) = rngS st"
  by (simp_all add: Send_def)

lemma ctxError_rng [simp]: "ctxError env (st\<lparr>rngS := g\<rparr>) = ctxError env st"
  by (simp add: ctxError_def split: option.splits)

lemma runChunks_sent:
  "runChunks cfg env ds st = (r, st') \<Longrightarrow>
   \<exists>k \<le> length ds. sent st' = sent st @ map deltaChunk (take k ds)
      \<and> (r = Value () \<longrightarrow> k = length ds) \<and> (\<forall>m. r \<noteq> GoPanic m)"
proof (induction ds arbitrary: st)
  case Nil
  then show ?case by auto
next
  case (Cons d ds)
  show ?case
  proof (cases "ctxError env st")
    case (Some e)
    with Cons.prems have "r = Failure e" "st' = st" by auto
    then show ?thesis by (intro exI [of _ 0]) simp
  next
    case None
    note c1 = this
    show ?thesis
    proof (cases "sendErr env (length (sent st))")
      case (Some e)
      with c1 Cons.prems have "r = Failure e" "st' = snd (Send env (deltaChunk d) st)" by auto
      then show ?thesis by (intro exI [of _ 1]) simp
    next
      case None
      note c2 = this
      let ?st2 = "(snd (Send env (deltaChunk d) st))\<lparr>rngS := sleepStreamGap cfg d (rngS (snd (Send env (deltaChunk d) st)))\<rparr>"
      show ?thesis
      proof (cases "ctxError env ?st2")
        case (Some e)
        with c1 c2 Cons.prems have "r = Failure e" "st' = ?st2" by (auto simp: Let_def)
        then show ?thesis by (intro exI [of _ 1]) simp
      next
        case None
        with c1 c2 Cons.prems have "runChunks cfg env ds ?st2 = (r, st')" by (auto simp: Let_def)
        from Cons.IH [OF this] obtain k where
          k: "k \<le> length ds" "sent st' = sent ?st2 @ map deltaChunk (take k ds)"
             "r = Value () \<longrightarrow> k = length ds" "\<forall>m. r \<noteq> GoPanic m" by blast
        then show ?thesis by (intro exI [of _ "Suc k"]) simp
      qed
    qed
  qed
qed

lemma runChunks_complete:
  "cancelAfter env = None \<Longrightarrow> (\<forall>n. sendErr env n = None) \<Longrightarrow>
   fst (runChunks cfg env ds st) = Value ()"
  by (induction ds arbitrary: st) (simp_all add: ctxError_def Let_def)

lemma runChunks_cancel:
  "cancelAfter env = Some k \<Longrightarrow> (\<forall>n. sendErr env n = None) \<Longrightarrow>
   length (sent st) \<le> k \<Longrightarrow> k \<le> length (sent st) + length ds \<Longrightarrow> ds \<noteq> [] \<Longrightarrow>
   fst (runChunks cfg env ds st) = Failure (ctxErr env)
   \<and> sent (snd (runChunks cfg env ds st))
        = sent st @ map deltaChunk (take (k - length (sent st)) ds)"
proof (induction ds arbitrary: st)
  case Nil
  then show ?case by simp
next
  case (Cons d ds)
  show ?case
  proof (cases "k = length (sent st)")
    case True
    with Cons.prems show ?thesis by (simp add: ctxError_def)
  next
    case False
    with Cons.prems have lt: "length (sent st) < k" by simp
    then have c1: "ctxError env st = None" using Cons.prems by (simp add: ctxError_def)
    let ?st2 = "(snd (Send env (deltaChunk d) st))\<lparr>rngS := sleepStreamGap cfg d (rngS (snd (Send env (deltaChunk d) st)))\<rparr>"
    have s2: "sent ?st2 = sent st @ [deltaChunk d]" by simp
    show ?thesis
    proof (cases "k = Suc (length (sent st))")
      case True
      then have "ctxError env ?st2 = Some (ctxErr env)" using Cons.prems by (simp add: ctxError_def)
      with c1 Cons.prems True show ?thesis by (simp add: Let_def)
    next
      case F2: False
      with lt have lt2: "Suc (length (sent st)) < k" by simp
      then have c2: "ctxError env ?st2 = None" using Cons.prems by (simp add: ctxError_def)
      from lt2 Cons.prems have ne: "ds \<noteq> []" by auto
      have ih: "fst (runChunks cfg env ds ?st2) = Failure (ctxErr env)
        \<and> sent (snd (runChunks cfg env ds ?st2))
            = sent ?st2 @ map deltaChunk (take (k - length (sent ?st2)) ds)"
        using Cons.prems lt2 ne by (intro Cons.IH) simp_all
      have tk: "take (k - length (sent st)) (d # ds) = d # take (k - Suc (length (sent st))) ds"
      proof -
        have "k - length (sent st) = Suc (k - Suc (length (sent st)))" using lt by simp
        then show ?thesis by (simp only: take_Suc_Cons)
      qed
      from c1 c2 Cons.prems ih show ?thesis
        by (simp add: Let_def tk)
    qed
  qed
qed

section \<open>The body of the streaming call\<close>

lemma streamChunkSize_pos: "1 \<le> fst (streamChunkSize cfg g)"
  by (simp add: streamChunkSize_def Let_def split_beta)

lemma streamCs_pos: "1 \<le> streamCs L cfg req st"
  by (simp add: streamCs_def planOf_def streamPlan_def Let_def split_beta streamChunkSize_pos)

lemma streamOut_BuildOutput:
  "\<exists>tokens. streamOut L cfg req st
      = BuildOutput (Quote L) (buildPromptForTokens L req) tokens (EchoPrompt cfg)
          (StrictTokenMode cfg) (DebugOutputChars cfg) (MaxOutputChars cfg)
    \<and> (\<not> Randomize cfg \<longrightarrow> tokens = requestTokens cfg (MaxTokens req))"
  by (auto simp add: streamOut_def planOf_def streamPlan_def Let_def split_beta)

text \<open>The body of a stream without the partial loop.\<close>

lemma streamBody_eq:
  "streamBody L cfg env req st =
    (if fst (shouldFail (ErrorRate cfg) (rngS st))
     then Some (Failure (injected L cfg (rngS st)),
            st\<lparr>rngS := snd (pickGrpcErrorCode L (ErrorMode cfg) (snd (shouldFail (ErrorRate cfg) (rngS st))))\<rparr>)
     else if 0 < fst (preDelay cfg (snd (shouldFail (ErrorRate cfg) (rngS st)))) \<and> ctxError env st \<noteq> None
     then Some (Failure (the (ctxError env st)),
            st\<lparr>rngS := snd (preDelay cfg (snd (shouldFail (ErrorRate cfg) (rngS st))))\<rparr>)
     else (case runChunks cfg env (chunksOf (nat (streamCs L cfg req st)) (streamOut L cfg req st))
                 (st\<lparr>rngS := snd (planOf L cfg req st)\<rparr>) of
             (Value u, st2) \<Rightarrow>
               (case sendErr env (length (sent st2)) of
                  Some e \<Rightarrow> Some (Failure e, snd (Send env (streamDone L cfg env req st) st2))
                | None \<Rightarrow> Some (Value (), snd (Send env (streamDone L cfg env req st) st2)))
           | (r, st2) \<Rightarrow> Some (r, st2)))"
proof -
  have cs: "1 \<le> streamCs L cfg req st" by (rule streamCs_pos)
  show ?thesis
    using cs
    unfolding streamBody_def streamCs_def streamOut_def streamDone_def planOf_def injected_def
    by (auto simp add: Let_def split_beta streamLoop_runChunks split: option.splits result.splits prod.splits)
qed

lemma ChatCompletionStream_eq:
  "ChatCompletionStream L cfg env req st =
    (case streamBody L cfg env req st of
       None \<Rightarrow> None
     | Some (r, st1) \<Rightarrow>
        (case r of Failure e \<Rightarrow> Some (Failure e, snd (Send env (failedChunk (errorString e)) st1))
         | _ \<Rightarrow> Some (r, st1)))"
  by (simp add: ChatCompletionStream_def split: option.splits prod.splits result.splits)

lemma Type_simps [simp]:
  "Type (deltaChunk d) = ''output_text.delta''" "Text (deltaChunk d) = d"
  "FinishReason (deltaChunk d) = []"
  "Type (failedChunk m) = ''failed''" "FinishReason (failedChunk m) = m"
  "Type (doneChunk pt ct ms) = ''output_text.done''" "FinishReason (doneChunk pt ct ms) = ''stop''"
  by (simp_all add: deltaChunk_def failedChunk_def doneChunk_def emptyChunk_def)

lemma Type_streamDone [simp]:
  "Type (streamDone L cfg env req st) = ''output_text.done''"
  "FinishReason (streamDone L cfg env req st) = ''stop''"
  by (simp_all add: streamDone_def)

lemma grpcTexts_deltas [simp]: "grpcTexts (map deltaChunk ds) = ds"
  by (induction ds) (simp_all add: grpcTexts_def)

lemma grpcTexts_append [simp]: "grpcTexts (xs @ ys) = grpcTexts xs @ grpcTexts ys"
  by (simp add: grpcTexts_def)

text \<open>What the body leaves behind, whatever its result.\<close>

lemma streamBody_sent:
  assumes "streamBody L cfg env req st = Some (r, st1)"
  shows "\<exists>k evs. k \<le> length (chunksOf (nat (streamCs L cfg req st)) (streamOut L cfg req st))
      \<and> sent st1 = sent st @ map deltaChunk (take k (chunksOf (nat (streamCs L cfg req st)) (streamOut L cfg req st))) @ evs
      \<and> (evs = [] \<or> evs = [streamDone L cfg env req st])
      \<and> (r = Value () \<longrightarrow> k = length (chunksOf (nat (streamCs L cfg req st)) (streamOut L cfg req st)) \<and> evs = [streamDone L cfg env req st])
      \<and> (\<forall>m. r \<noteq> GoPanic m)"
proof -
  let ?ds = "chunksOf (nat (streamCs L cfg req st)) (streamOut L cfg req st)"
  let ?st0 = "st\<lparr>rngS := snd (planOf L cfg req st)\<rparr>"
  obtain r2 st2 where run: "runChunks cfg env ?ds ?st0 = (r2, st2)" by (cases "runChunks cfg env ?ds ?st0")
  from runChunks_sent [OF run] obtain k where
    k: "k \<le> length ?ds" "sent st2 = sent st @ map deltaChunk (take k ?ds)"
       "r2 = Value () \<longrightarrow> k = length ?ds" "\<forall>m. r2 \<noteq> GoPanic m" by auto
  consider (inj) "fst (shouldFail (ErrorRate cfg) (rngS st))"
    | (pre) "\<not> fst (shouldFail (ErrorRate cfg) (rngS st))"
        "0 < fst (preDelay cfg (snd (shouldFail (ErrorRate cfg) (rngS st)))) \<and> ctxError env st \<noteq> None"
    | (run) "\<not> fst (shouldFail (ErrorRate cfg) (rngS st))"
        "\<not> (0 < fst (preDelay cfg (snd (shouldFail (ErrorRate cfg) (rngS st)))) \<and> ctxError env st \<noteq> None)"
    by blast
  then show ?thesis
  proof cases
    case inj
    with assms have "sent st1 = sent st" "r = Failure (injected L cfg (rngS st))"
      by (auto simp add: streamBody_eq)
    then show ?thesis by (intro exI [of _ 0] exI [of _ "[]"]) simp
  next
    case pre
    with assms have "sent st1 = sent st" "r = Failure (the (ctxError env st))"
      by (auto simp add: streamBody_eq)
    then show ?thesis by (intro exI [of _ 0] exI [of _ "[]"]) simp
  next
    case run
    show ?thesis
    proof (cases r2)
      case (Value u)
      with run assms \<open>runChunks cfg env ?ds ?st0 = (r2, st2)\<close>
      have "sent st1 = sent st2 @ [streamDone L cfg env req st]" "\<forall>m. r \<noteq> GoPanic m"
        by (auto simp add: streamBody_eq split: option.splits)
      with k Value show ?thesis
        by (intro exI [of _ k] exI [of _ "[streamDone L cfg env req st]"]) simp
    next
      case (Failure e)
      with run assms \<open>runChunks cfg env ?ds ?st0 = (r2, st2)\<close>
      have "st1 = st2" "r = Failure e" by (auto simp add: streamBody_eq)
      with k show ?thesis by (intro exI [of _ k] exI [of _ "[]"]) simp
    next
      case (GoPanic m)
      with k show ?thesis by simp
    qed
  qed
qed

lemma streamBody_returns: "\<exists>r st1. streamBody L cfg env req st = Some (r, st1)"
  by (simp add: streamBody_eq split: prod.splits result.splits option.splits)

section \<open>The streaming call as a whole\<close>



lemma stream_completed_chunks:
  assumes "ChatCompletionStream L cfg env req st = Some (Value (), st')"
  shows "newEvents st st'
          = map deltaChunk (chunksOf (nat (streamCs L cfg req st)) (streamOut L cfg req st))
            @ [streamDone L cfg env req st]"
proof -
  from assms obtain r st1 where b: "streamBody L cfg env req st = Some (r, st1)"
    by (auto simp add: ChatCompletionStream_eq split: option.splits)
  with assms have "r = Value ()" "st1 = st'"
    by (auto simp add: ChatCompletionStream_eq split: result.splits)
  with streamBody_sent [OF b] show ?thesis
    by (auto simp add: newEvents_def)
qed

lemma stream_returns:
  "\<exists>r st'. ChatCompletionStream L cfg env req st = Some (r, st') \<and> (\<forall>m. r \<noteq> GoPanic m)"
proof -
  obtain r st1 where b: "streamBody L cfg env req st = Some (r, st1)"
    using streamBody_returns by blast
  from streamBody_sent [OF b] have "\<forall>m. r \<noteq> GoPanic m" by blast
  with b show ?thesis
    by (cases r) (simp_all add: ChatCompletionStream_eq)
qed

lemma stream_cancel:
  assumes c: "cancelAfter env = Some k" and s: "\<forall>n. sendErr env n = None"
    and nf: "\<not> fst (shouldFail (ErrorRate cfg) (rngS st))"
    and fresh: "sent st = []"
    and k1: "1 \<le> k"
    and k2: "k \<le> length (chunksOf (nat (streamCs L cfg req st)) (streamOut L cfg req st))"
  shows "\<exists>st'. ChatCompletionStream L cfg env req st = Some (Failure (ctxErr env), st')
      \<and> sent st' = map deltaChunk (take k (chunksOf (nat (streamCs L cfg req st)) (streamOut L cfg req st)))
                   @ [failedChunk (errorString (ctxErr env))]"
proof -
  let ?ds = "chunksOf (nat (streamCs L cfg req st)) (streamOut L cfg req st)"
  let ?st0 = "st\<lparr>rngS := snd (planOf L cfg req st)\<rparr>"
  have c0: "ctxError env st = None" using c fresh k1 by (simp add: ctxError_def)
  have ne: "?ds \<noteq> []" using k1 k2 by auto
  have run: "fst (runChunks cfg env ?ds ?st0) = Failure (ctxErr env)
     \<and> sent (snd (runChunks cfg env ?ds ?st0)) = sent ?st0 @ map deltaChunk (take (k - length (sent ?st0)) ?ds)"
    using c s fresh k2 ne by (intro runChunks_cancel) simp_all
  obtain r2 st2 where rc: "runChunks cfg env ?ds ?st0 = (r2, st2)" by (cases "runChunks cfg env ?ds ?st0")
  with run fresh have r2: "r2 = Failure (ctxErr env)" and s2: "sent st2 = map deltaChunk (take k ?ds)" by simp_all
  have "streamBody L cfg env req st = Some (Failure (ctxErr env), st2)"
    using nf c0 rc r2 by (simp add: streamBody_eq)
  then have "ChatCompletionStream L cfg env req st
      = Some (Failure (ctxErr env), snd (Send env (failedChunk (errorString (ctxErr env))) st2))"
    by (simp add: ChatCompletionStream_eq)
  with s2 show ?thesis by simp
qed

lemma stream_ok:
  assumes "cancelAfter env = None" "\<forall>n. sendErr env n = None"
    "\<not> fst (shouldFail (ErrorRate cfg) (rngS st))"
  shows "\<exists>st'. ChatCompletionStream L cfg env req st = Some (Value (), st')"
proof -
  let ?ds = "chunksOf (nat (streamCs L cfg req st)) (streamOut L cfg req st)"
  let ?st0 = "st\<lparr>rngS := snd (planOf L cfg req st)\<rparr>"
  have c0: "ctxError env st = None" using assms by (simp add: ctxError_def)
  have "fst (runChunks cfg env ?ds ?st0) = Value ()" using assms by (intro runChunks_complete) simp_all
  then obtain st2 where rc: "runChunks cfg env ?ds ?st0 = (Value (), st2)" by (cases "runChunks cfg env ?ds ?st0") simp
  have "streamBody L cfg env req st = Some (Value (), snd (Send env (streamDone L cfg env req st) st2))"
    using assms c0 rc by (simp add: streamBody_eq)
  then show ?thesis by (simp add: ChatCompletionStream_eq)
qed

lemma stream_injected:
  assumes "fst (shouldFail (ErrorRate cfg) (rngS st))"
  shows "ChatCompletionStream L cfg env req st
     = Some (Failure (injected L cfg (rngS st)),
          st\<lparr>rngS := snd (pickGrpcErrorCode L (ErrorMode cfg) (snd (shouldFail (ErrorRate cfg) (rngS st)))),
             sent := sent st @ [failedChunk (errorString (injected L cfg (rngS st)))]\<rparr>)"
  using assms by (simp add: ChatCompletionStream_eq streamBody_eq Send_def)

section \<open>The content loop of the text-event stream\<close>

lemma sseLoop_runFrames:
  "1 \<le> cs \<Longrightarrow> 0 \<le> i \<Longrightarrow>
   sseLoop cfg env content cid created model cs i st
     = Some (runFrames cfg env cid created model (chunksOf (nat cs) (drop (nat i) content)) st)"
proof (induction "nat (int (length content) - i)" arbitrary: i st rule: less_induct)
  case less
  show ?case
  proof (cases "i < int (length content)")
    case False
    then have "drop (nat i) content = []" using less.prems by simp
    with False show ?thesis by (subst sseLoop.simps) simp
  next
    case True
    then have ne: "drop (nat i) content \<noteq> []" using less.prems by simp
    have lt: "nat (int (length content) - (i + cs)) < nat (int (length content) - i)"
      using True less.prems by simp
    have dd: "drop (nat cs) (drop (nat i) content) = drop (nat (i + cs)) content"
      using less.prems by (simp add: nat_add_distrib add.commute)
    have ih: "\<And>st. sseLoop cfg env content cid created model cs (i + cs) st
        = Some (runFrames cfg env cid created model (chunksOf (nat cs) (drop (nat (i + cs)) content)) st)"
      using less.hyps [OF lt] less.prems by simp
    have ch: "chunksOf (nat cs) (drop (nat i) content)
        = take (nat cs) (drop (nat i) content) # chunksOf (nat cs) (drop (nat (i + cs)) content)"
      using chunksOf_step [OF _ ne, of "nat cs"] less.prems dd by simp
    have nopanic: "\<not> (i < 0 \<or> (if i + cs > int (length content) then int (length content) else i + cs) < i)"
      using True less.prems by auto
    show ?thesis
      apply (subst sseLoop.simps)
      apply (simp only: True if_True Let_def nopanic if_False slice_eq [OF less.prems(2) True less.prems(1)] ch ih runFrames.simps)
      apply simp
      done
  qed
qed

lemma sseLoop_neg:
  "cs < 0 \<Longrightarrow> content \<noteq> [] \<Longrightarrow>
   sseLoop cfg env content cid created model cs 0 st
     = Some (if ctxDone env st then Value False else GoPanic ''slice bounds out of range'', st)"
  by (subst sseLoop.simps) (simp add: Let_def)

lemma sseChunkSize_nonzero: "fst (sseChunkSize cfg csize g) \<noteq> 0"
  by (simp add: sseChunkSize_def defaultInt_def Let_def split_beta)

lemma io_simps [simp]:
  "body (snd (bwPrint env f st)) = body st"
  "buf (snd (bwPrint env f st)) = (if fst (bwPrint env f st) then buf st else buf st @ [f])"
  "body (snd (bwFlush env st)) = (if fst (bwFlush env st) then body st else body st @ buf st)"
  "buf (snd (bwFlush env st)) = (if fst (bwFlush env st) then buf st else [])"
  by (simp_all add: bwPrint_def bwFlush_def)

lemma writeSSE_simps [simp]:
  "body (snd (writeSSE env v st)) = body st"
  "buf (snd (writeSSE env v st)) = (if fst (writeSSE env v st) then buf st else buf st @ [Data (jsonMarshal v)])"
  by (simp_all add: writeSSE_def)

lemma ctxDone_rng [simp]: "ctxDone env (st\<lparr>rngH := g\<rparr>) = ctxDone env st"
  by (simp add: ctxDone_def split: option.splits)


lemma runFrames_ok:
  "doneAfter env = None \<Longrightarrow> (\<forall>n. \<not> ioErr env n) \<Longrightarrow> buf st = [] \<Longrightarrow>
   fst (runFrames cfg env cid created model ds st) = Value True
   \<and> body (snd (runFrames cfg env cid created model ds st))
       = body st @ map (\<lambda>d. Data (jsonMarshal (contentFrame cid created model d))) ds
   \<and> buf (snd (runFrames cfg env cid created model ds st)) = []"
proof (induction ds arbitrary: st)
  case Nil
  then show ?case by simp
next
  case (Cons d ds)
  let ?f = "contentFrame cid created model d"
  let ?st1 = "snd (writeSSE env ?f st)"
  let ?st2 = "snd (bwFlush env ?st1)"
  let ?st3 = "?st2\<lparr>rngH := sleepSSEStreamGap cfg d (rngH ?st2)\<rparr>"
  have w: "\<not> fst (writeSSE env ?f st)" "\<not> fst (bwFlush env ?st1)" "\<not> ctxDone env st"
    using Cons.prems by (simp_all add: writeSSE_def bwPrint_def bwFlush_def ctxDone_def)
  have b3: "buf ?st3 = []" using w by simp
  have bd: "body ?st3 = body st @ [Data (jsonMarshal ?f)]" using w Cons.prems by simp
  from Cons.IH [OF Cons.prems(1,2) b3] w bd show ?case by (simp add: Let_def)
qed

section \<open>The text-event stream as a whole\<close>

lemma sseStart_simps [simp]:
  "body (sseStart cfg csize st) = body st" "buf (sseStart cfg csize st) = []"
  by (simp_all add: sseStart_def sseHeaders_def)

lemma BuildOutput_nonempty: "BuildOutput q p m e s d c \<noteq> []"
proof -
  have "0 < int (length (BuildOutput q p m e s d c))"
    by (simp only: BuildOutput_length targetLen_pos)
  then show ?thesis by auto
qed

lemma serve_eq:
  "serveChatCompletionSSE L env model prompt maxTokens cfg csize st =
    (if \<not> flusher env then Some (Value (), httpError ''streaming unsupported'' 500 st)
     else if fst (writeSSE env (sseRole env model st) (sseStart cfg csize st))
     then Some (Value (), snd (writeSSE env (sseRole env model st) (sseStart cfg csize st)))
     else if fst (bwFlush env (snd (writeSSE env (sseRole env model st) (sseStart cfg csize st))))
     then Some (Value (), snd (bwFlush env (snd (writeSSE env (sseRole env model st) (sseStart cfg csize st)))))
     else if sseCs cfg csize st < 0
     then Some (if ctxDone env (snd (bwFlush env (snd (writeSSE env (sseRole env model st) (sseStart cfg csize st)))))
                then Value () else GoPanic ''slice bounds out of range'',
                snd (bwFlush env (snd (writeSSE env (sseRole env model st) (sseStart cfg csize st)))))
     else (case runFrames cfg env (sseCid st) (nowUnix env) model
                 (chunksOf (nat (sseCs cfg csize st)) (sseContent L cfg prompt maxTokens))
                 (snd (bwFlush env (snd (writeSSE env (sseRole env model st) (sseStart cfg csize st))))) of
             (Value True, st2) \<Rightarrow> Some (Value (), sseFinish env (sseCid st) (nowUnix env) model st2)
           | (Value False, st2) \<Rightarrow> Some (Value (), st2)
           | (Failure e, st2) \<Rightarrow> Some (Failure e, st2)
           | (GoPanic m, st2) \<Rightarrow> Some (GoPanic m, st2)))"
proof -
  have nz: "sseCs cfg csize st \<noteq> 0" by (simp add: sseCs_def sseChunkSize_nonzero)
  have hd: "rngH (sseHeaders st) = rngH st" by (simp add: sseHeaders_def)
  have ne: "sseContent L cfg prompt maxTokens \<noteq> []" by (simp add: sseContent_def BuildOutput_nonempty)
  show ?thesis
  proof (cases "sseCs cfg csize st < 0")
    case True
    then show ?thesis
      using ne sseLoop_neg [OF True ne]
      unfolding serveChatCompletionSSE_def sseCs_def sseContent_def sseCid_def sseStart_def sseRole_def
      by (simp add: Let_def split_beta hd)
  next
    case False
    with nz have pos: "1 \<le> sseCs cfg csize st" by simp
    show ?thesis
      using False sseLoop_runFrames [OF pos, of 0]
      unfolding serveChatCompletionSSE_def sseCs_def sseContent_def sseCid_def sseStart_def sseRole_def
      by (simp add: Let_def split_beta hd split: prod.splits result.splits bool.splits)
  qed
qed

lemma sseTexts_simps [simp]:
  "sseTexts [] = []" "sseTexts (xs @ ys) = sseTexts xs @ sseTexts ys"
  "sseTexts (Data (jsonMarshal (roleFrame c t m)) # fs) = sseTexts fs"
  "sseTexts (Data (jsonMarshal (lastFrame c t m)) # fs) = sseTexts fs"
  "sseTexts (DoneMarker # fs) = sseTexts fs"
  "sseTexts (Plain p # fs) = sseTexts fs"
  by (simp_all add: sseTexts_def roleFrame_def lastFrame_def jsonMarshal_def jsonChoice_def
      toValidUTF8_def)

lemma sseTexts_contents:
  "\<forall>d \<in> set ds. d \<noteq> [] \<Longrightarrow>
   sseTexts (map (\<lambda>d. Data (jsonMarshal (contentFrame c t m d))) ds) = map toValidUTF8 ds"
  by (induction ds) (simp_all add: sseTexts_def contentFrame_def jsonMarshal_def jsonChoice_def)

lemma chunksOf_nonempty: "0 < n \<Longrightarrow> \<forall>d \<in> set (take k (chunksOf n xs)). d \<noteq> []"
  using chunksOf_bounds by (metis in_set_takeD)


lemma sseFinish_ok:
  "buf st = [] \<Longrightarrow> \<forall>n. \<not> ioErr env n \<Longrightarrow>
   body (sseFinish env c t m st) = body st @ [Data (jsonMarshal (lastFrame c t m)), DoneMarker]"
  by (simp add: sseFinish_def Let_def writeSSE_def bwPrint_def bwFlush_def)

lemma DoneMarker_contents [simp]:
  "DoneMarker \<notin> set (map (\<lambda>d. Data (jsonMarshal (contentFrame c t m d))) ds)"
  by auto


lemma serve_ok:
  assumes "flusher env" "doneAfter env = None" "\<forall>n. \<not> ioErr env n" "1 \<le> sseCs cfg csize st"
  shows "\<exists>st'. serveChatCompletionSSE L env model prompt maxTokens cfg csize st = Some (Value (), st')
     \<and> newFrames st st'
         = Data (jsonMarshal (sseRole env model st))
           # map (\<lambda>d. Data (jsonMarshal (contentFrame (sseCid st) (nowUnix env) model d)))
               (chunksOf (nat (sseCs cfg csize st)) (sseContent L cfg prompt maxTokens))
           @ [Data (jsonMarshal (lastFrame (sseCid st) (nowUnix env) model)), DoneMarker]"
proof -
  let ?role = "sseRole env model st"
  let ?st1 = "snd (writeSSE env ?role (sseStart cfg csize st))"
  let ?st2 = "snd (bwFlush env ?st1)"
  let ?ds = "chunksOf (nat (sseCs cfg csize st)) (sseContent L cfg prompt maxTokens)"
  have w: "\<not> fst (writeSSE env ?role (sseStart cfg csize st))" "\<not> fst (bwFlush env ?st1)"
    using assms by (simp_all add: writeSSE_def bwPrint_def bwFlush_def)
  have b2: "body ?st2 = body st @ [Data (jsonMarshal ?role)]" "buf ?st2 = []" using w by simp_all
  from runFrames_ok [OF assms(2,3) b2(2), of cfg "sseCid st" "nowUnix env" model ?ds]
  obtain st3 where rf: "runFrames cfg env (sseCid st) (nowUnix env) model ?ds ?st2 = (Value True, st3)"
    and b3: "body st3 = body ?st2 @ map (\<lambda>d. Data (jsonMarshal (contentFrame (sseCid st) (nowUnix env) model d))) ?ds"
       "buf st3 = []"
    by (cases "runFrames cfg env (sseCid st) (nowUnix env) model ?ds ?st2") auto
  have "serveChatCompletionSSE L env model prompt maxTokens cfg csize st
      = Some (Value (), sseFinish env (sseCid st) (nowUnix env) model st3)"
    using assms w rf by (simp add: serve_eq)
  moreover have "body (sseFinish env (sseCid st) (nowUnix env) model st3)
      = body st3 @ [Data (jsonMarshal (lastFrame (sseCid st) (nowUnix env) model)), DoneMarker]"
    using b3 assms by (intro sseFinish_ok) simp_all
  ultimately show ?thesis using b2 b3 by (simp add: newFrames_def)
qed

lemma handler_no_prompt:
  "qGet q ''prompt'' = [] \<Longrightarrow>
   ChatCompletionSSEHandler L cfg env q st
     = Some (Value (), httpError ''prompt is required'' 400 st)"
  by (simp add: ChatCompletionSSEHandler_def Let_def)

section \<open>Evaluations\<close>


lemma chunksOf_subset: "0 < n \<Longrightarrow> t \<in> set (chunksOf n xs) \<Longrightarrow> set t \<subseteq> set xs"
proof -
  assume n: "0 < n" and t: "t \<in> set (chunksOf n xs)"
  have "set xs = set (concat (chunksOf n xs))" by (simp only: concat_chunksOf [OF n])
  with t show ?thesis by auto
qed

lemma toValidUTF8_chunks:
  assumes "0 < n" and "\<forall>c \<in> set xs. (of_char c :: nat) < 0x80"
  shows "map toValidUTF8 (chunksOf n xs) = chunksOf n xs"
proof (rule map_idI)
  fix t assume "t \<in> set (chunksOf n xs)"
  from chunksOf_subset [OF assms(1) this] assms(2) have "\<forall>c \<in> set t. (of_char c :: nat) < 0x80"
    by blast
  then show "toValidUTF8 t = t" by (rule toValidUTF8_ascii)
qed

lemma fill_set: "set (fill s t) \<subseteq> set s \<union> set ''[mock-token] ''"
proof (induction s t rule: fill.induct)
  case (1 s target)
  show ?case
  proof (cases "int (length s) < target")
    case True
    then have "fill s target = fill (s @ ''[mock-token] '') target"
      by (subst fill.simps) (simp only: if_True)
    moreover from 1 [OF True]
    have "set (fill (s @ ''[mock-token] '') target) \<subseteq> set s \<union> set ''[mock-token] ''"
      by (simp only: set_append Un_assoc Un_absorb)
    ultimately show ?thesis by (simp only:)
  next
    case False
    then have "fill s target = s" by (subst fill.simps) (simp only: if_False)
    then show ?thesis by (simp only: Un_upper1)
  qed
qed

text \<open>Without the echo the output is made of the boilerplate and the filler, which are
  7-bit text.\<close>

lemma BuildOutput_ascii:
  "\<forall>c \<in> set (BuildOutput q p m False s d cap). (of_char c :: nat) < 0x80"
proof -
  let ?t = "targetLen m s d cap"
  have "set (BuildOutput q p m False s d cap) \<subseteq> set (fill boilerplate ?t)"
    by (simp add: BuildOutput_def Let_def set_take_subset)
  also have "\<dots> \<subseteq> set boilerplate \<union> set ''[mock-token] ''" by (rule fill_set)
  finally have sub: "set (BuildOutput q p m False s d cap) \<subseteq> set boilerplate \<union> set ''[mock-token] ''" .
  have "\<forall>c \<in> set boilerplate \<union> set ''[mock-token] ''. (of_char c :: nat) < 0x80"
    by (simp add: boilerplate_def)
  with sub show ?thesis by blast
qed

lemma sseContent_plain:
  "\<not> EchoPrompt cfg \<Longrightarrow> 1 \<le> cs \<Longrightarrow>
   map toValidUTF8 (chunksOf (nat cs) (sseContent L cfg prompt maxTokens))
     = chunksOf (nat cs) (sseContent L cfg prompt maxTokens)"
  by (rule toValidUTF8_chunks) (simp_all add: sseContent_def BuildOutput_ascii)

lemma shouldFail_simps [simp]:
  "shouldFail (Finite 0) g = (False, g)" "shouldFail (Finite 1) g = (True, g)"
  by (simp_all add: shouldFail_def)

lemma TrimSpace_plain:
  "TrimSpace ''cancel me'' = ''cancel me''" "TrimSpace [] = []"
  "TrimSpace ''tell me a joke'' = ''tell me a joke''" "TrimSpace ''hi'' = ''hi''"
  "TrimSpace ''sse prompt'' = ''sse prompt''"
  by (simp_all add: TrimSpace_def spaceRunes_def spaceWidth_def)

lemma base_plan:
  "\<not> Randomize cfg \<Longrightarrow>
   streamCs L cfg req st = (if chunkSize cfg \<le> 0 then 12 else chunkSize cfg)"
  "\<not> Randomize cfg \<Longrightarrow>
   streamOut L cfg req st
     = BuildOutput (Quote L) (buildPromptForTokens L req) (requestTokens cfg (MaxTokens req))
         (EchoPrompt cfg) (StrictTokenMode cfg) (DebugOutputChars cfg) (MaxOutputChars cfg)"
  by (simp_all add: streamCs_def streamOut_def planOf_def streamPlan_def streamChunkSize_def
      Let_def split_beta)

lemma length_streamOut:
  "\<not> Randomize cfg \<Longrightarrow>
   int (length (streamOut L cfg req st))
     = targetLen (requestTokens cfg (MaxTokens req)) (StrictTokenMode cfg)
         (DebugOutputChars cfg) (MaxOutputChars cfg)"
  by (simp add: base_plan BuildOutput_length)

section \<open>Termination of a stream that aborts\<close>

text \<open>The cancellation scenario of the repository's test: chunk size 4, budget 64, the
  context cancelled once the first chunk has been sent.\<close>

lemma cancel_scenario:
  "streamCs asciiLib (baseConfig\<lparr>ChunkSize := 4\<rparr>) (request ''cancel me'' 64) freshStream = 4"
  "length (streamOut asciiLib (baseConfig\<lparr>ChunkSize := 4\<rparr>) (request ''cancel me'' 64) freshStream) = 512"
  "length (chunksOf 4 (streamOut asciiLib (baseConfig\<lparr>ChunkSize := 4\<rparr>) (request ''cancel me'' 64) freshStream)) = 128"
proof -
  let ?cfg = "baseConfig\<lparr>ChunkSize := 4\<rparr>"
  have f: "\<not> Randomize ?cfg" "ChunkSize ?cfg = 4" "\<not> StrictTokenMode ?cfg"
    "DebugOutputChars ?cfg = 0" "MaxOutputChars ?cfg = 0"
    by (simp_all add: baseConfig_def)
  show "streamCs asciiLib ?cfg (request ''cancel me'' 64) freshStream = 4"
    by (simp add: base_plan [OF f(1)] chunkSize_def defaultInt_def f)
  have "int (length (streamOut asciiLib ?cfg (request ''cancel me'' 64) freshStream)) = 512"
    by (simp add: length_streamOut [OF f(1)] targetLen_def f)
  then show l: "length (streamOut asciiLib ?cfg (request ''cancel me'' 64) freshStream) = 512"
    by linarith
  show "length (chunksOf 4 (streamOut asciiLib ?cfg (request ''cancel me'' 64) freshStream)) = 128"
    by (simp add: length_chunksOf l)
qed

lemma cancel_scenario_run:
  "\<exists>st'. ChatCompletionStream asciiLib (baseConfig\<lparr>ChunkSize := 4\<rparr>)
        (quietEnv\<lparr>cancelAfter := Some 1\<rparr>) (request ''cancel me'' 64) freshStream
       = Some (Failure Canceled, st')
     \<and> sent st' = map deltaChunk (take 1 (chunksOf 4
           (streamOut asciiLib (baseConfig\<lparr>ChunkSize := 4\<rparr>) (request ''cancel me'' 64) freshStream)))
         @ [failedChunk ''context canceled'']"
proof -
  let ?cfg = "baseConfig\<lparr>ChunkSize := 4\<rparr>"
  let ?env = "quietEnv\<lparr>cancelAfter := Some 1\<rparr>"
  let ?req = "request ''cancel me'' 64"
  have p: "cancelAfter ?env = Some 1" "\<forall>n. sendErr ?env n = None"
    "\<not> fst (shouldFail (ErrorRate ?cfg) (rngS freshStream))" "sent freshStream = []"
    "1 \<le> (1::nat)"
    "1 \<le> length (chunksOf (nat (streamCs asciiLib ?cfg ?req freshStream))
                 (streamOut asciiLib ?cfg ?req freshStream))"
    by (simp_all add: quietEnv_def freshStream_def cancel_scenario [unfolded freshStream_def])
       (simp add: baseConfig_def)
  from stream_cancel [OF p] show ?thesis
    by (simp add: cancel_scenario) (simp add: quietEnv_def)
qed

text \<open>
  Claim C2, as the specification states it, fails for cancellation: in the scenario
  above the call returns the cancellation error after one content chunk, and the stream
  has then been handed a second message, the event of type \<^verbatim>\<open>failed\<close>. The deferred function
  tests \<^verbatim>\<open>err != nil\<close> only.
\<close>

theorem cancel_then_failed_event_counterexample:
  "map_option (apsnd (map Type \<circ> sent))
     (ChatCompletionStream asciiLib (baseConfig\<lparr>ChunkSize := 4\<rparr>)
        (quietEnv\<lparr>cancelAfter := Some 1\<rparr>) (request ''cancel me'' 64) freshStream)
   = Some (Failure Canceled, [''output_text.delta'', ''failed''])"
proof -
  let ?cfg = "baseConfig\<lparr>ChunkSize := 4\<rparr>"
  let ?env = "quietEnv\<lparr>cancelAfter := Some 1\<rparr>"
  let ?req = "request ''cancel me'' 64"
  from cancel_scenario_run obtain st' where
    r: "ChatCompletionStream asciiLib ?cfg ?env ?req freshStream = Some (Failure Canceled, st')"
    and s: "sent st' = map deltaChunk (take 1 (chunksOf 4 (streamOut asciiLib ?cfg ?req freshStream)))
                   @ [failedChunk ''context canceled'']"
    by blast
  define xs where "xs = take 1 (chunksOf 4 (streamOut asciiLib ?cfg ?req freshStream))"
  have "length xs = 1" by (simp add: xs_def cancel_scenario)
  then obtain d where d: "xs = [d]" by (cases xs) auto
  from s have "sent st' = map deltaChunk xs @ [failedChunk ''context canceled'']"
    by (simp only: xs_def)
  with d have "map Type (sent st') = [''output_text.delta'', ''failed'']" by simp
  with r show ?thesis by simp
qed

text \<open>What an aborted body has handed to the stream: some of the planned chunks, and
  the final event only when its own send returned the error.\<close>

lemma streamBody_abort:
  assumes "streamBody L cfg env req st = Some (Failure e, st1)"
  shows "\<exists>n evs. n \<le> length (chunksOf (nat (streamCs L cfg req st)) (streamOut L cfg req st))
      \<and> sent st1 = sent st @ map deltaChunk (take n (chunksOf (nat (streamCs L cfg req st)) (streamOut L cfg req st))) @ evs
      \<and> (evs = [] \<or> evs = [streamDone L cfg env req st]
            \<and> n = length (chunksOf (nat (streamCs L cfg req st)) (streamOut L cfg req st))
            \<and> sendErr env (length (sent st) + n) = Some e)"
proof -
  let ?ds = "chunksOf (nat (streamCs L cfg req st)) (streamOut L cfg req st)"
  let ?st0 = "st\<lparr>rngS := snd (planOf L cfg req st)\<rparr>"
  obtain r2 st2 where run: "runChunks cfg env ?ds ?st0 = (r2, st2)" by (cases "runChunks cfg env ?ds ?st0")
  from runChunks_sent [OF run] obtain k where
    k: "k \<le> length ?ds" "sent st2 = sent st @ map deltaChunk (take k ?ds)"
       "r2 = Value () \<longrightarrow> k = length ?ds" "\<forall>m. r2 \<noteq> GoPanic m" by auto
  consider (inj) "fst (shouldFail (ErrorRate cfg) (rngS st))"
    | (pre) "\<not> fst (shouldFail (ErrorRate cfg) (rngS st))"
        "0 < fst (preDelay cfg (snd (shouldFail (ErrorRate cfg) (rngS st)))) \<and> ctxError env st \<noteq> None"
    | (run) "\<not> fst (shouldFail (ErrorRate cfg) (rngS st))"
        "\<not> (0 < fst (preDelay cfg (snd (shouldFail (ErrorRate cfg) (rngS st)))) \<and> ctxError env st \<noteq> None)"
    by blast
  then show ?thesis
  proof cases
    case inj
    with assms have "sent st1 = sent st" by (auto simp add: streamBody_eq)
    then show ?thesis by (intro exI [of _ 0] exI [of _ "[]"]) simp
  next
    case pre
    with assms have "sent st1 = sent st" by (auto simp add: streamBody_eq)
    then show ?thesis by (intro exI [of _ 0] exI [of _ "[]"]) simp
  next
    case run
    show ?thesis
    proof (cases r2)
      case (Value u)
      with run assms \<open>runChunks cfg env ?ds ?st0 = (r2, st2)\<close>
      have "sent st1 = sent st2 @ [streamDone L cfg env req st]"
        and "sendErr env (length (sent st2)) = Some e"
        by (auto simp add: streamBody_eq split: option.splits)
      with k Value show ?thesis
        by (intro exI [of _ k] exI [of _ "[streamDone L cfg env req st]"]) simp
    next
      case (Failure e2)
      with run assms \<open>runChunks cfg env ?ds ?st0 = (r2, st2)\<close>
      have "st1 = st2" by (auto simp add: streamBody_eq)
      with k show ?thesis by (intro exI [of _ k] exI [of _ "[]"]) simp
    next
      case (GoPanic m)
      with k show ?thesis by simp
    qed
  qed
qed

text \<open>Every send of the chunk loop follows a check of the context, so the loop hands
  nothing to the stream once the context is finished; and when the loop has run to its
  end over at least one chunk, the context is not finished yet.\<close>

lemma runChunks_bound:
  "cancelAfter env = Some k \<Longrightarrow> runChunks cfg env ds st = (r, st') \<Longrightarrow>
   length (sent st') \<le> max k (length (sent st))
   \<and> (r = Value () \<and> ds \<noteq> [] \<longrightarrow> length (sent st') < k)"
proof (induction ds arbitrary: st)
  case Nil
  then show ?case by auto
next
  case (Cons d ds)
  show ?case
  proof (cases "ctxError env st")
    case (Some e)
    with Cons.prems have "r = Failure e" "st' = st" by auto
    then show ?thesis by simp
  next
    case None
    note c1 = this
    with Cons.prems(1) have lt: "length (sent st) < k" by (simp add: ctxError_def split: if_splits)
    show ?thesis
    proof (cases "sendErr env (length (sent st))")
      case (Some e)
      with c1 Cons.prems have "r = Failure e" "st' = snd (Send env (deltaChunk d) st)" by auto
      with lt show ?thesis by simp
    next
      case None
      note c2 = this
      let ?st2 = "(snd (Send env (deltaChunk d) st))\<lparr>rngS := sleepStreamGap cfg d (rngS (snd (Send env (deltaChunk d) st)))\<rparr>"
      have l2: "length (sent ?st2) = Suc (length (sent st))" by simp
      show ?thesis
      proof (cases "ctxError env ?st2")
        case (Some e)
        with c1 c2 Cons.prems have "r = Failure e" "st' = ?st2" by (auto simp: Let_def)
        with lt show ?thesis by simp
      next
        case None
        with Cons.prems(1) have lt2: "Suc (length (sent st)) < k"
          by (simp add: ctxError_def split: if_splits)
        from None c1 c2 Cons.prems have run: "runChunks cfg env ds ?st2 = (r, st')"
          by (auto simp: Let_def)
        from Cons.IH [OF Cons.prems(1) run]
        have ih: "length (sent st') \<le> max k (length (sent ?st2))"
          "r = Value () \<and> ds \<noteq> [] \<longrightarrow> length (sent st') < k" by simp_all
        show ?thesis
        proof (cases "ds = []")
          case True
          with run have "st' = ?st2" by simp
          with lt2 show ?thesis by simp
        next
          case False
          with ih lt2 show ?thesis by (simp only: l2) auto
        qed
      qed
    qed
  qed
qed

lemma chunksOf_nonempty_list: "0 < n \<Longrightarrow> xs \<noteq> [] \<Longrightarrow> chunksOf n xs \<noteq> []"
  by (simp add: chunksOf_step)

lemma streamOut_nonempty: "streamOut L cfg req st \<noteq> []"
proof -
  from streamOut_BuildOutput [of L cfg req st] obtain tokens where
    "streamOut L cfg req st
      = BuildOutput (Quote L) (buildPromptForTokens L req) tokens (EchoPrompt cfg)
          (StrictTokenMode cfg) (DebugOutputChars cfg) (MaxOutputChars cfg)"
    by blast
  then show ?thesis by (simp only: BuildOutput_nonempty not_False_eq_True)
qed

lemma streamBody_bound:
  assumes "streamBody L cfg env req st = Some (r, st1)" and c: "cancelAfter env = Some k"
  shows "length (sent st1) \<le> max k (length (sent st))"
proof -
  let ?ds = "chunksOf (nat (streamCs L cfg req st)) (streamOut L cfg req st)"
  let ?st0 = "st\<lparr>rngS := snd (planOf L cfg req st)\<rparr>"
  have ne: "?ds \<noteq> []"
    using streamCs_pos [of L cfg req st] streamOut_nonempty [of L cfg req st]
    by (intro chunksOf_nonempty_list) simp_all
  obtain r2 st2 where run: "runChunks cfg env ?ds ?st0 = (r2, st2)" by (cases "runChunks cfg env ?ds ?st0")
  from runChunks_bound [OF c run] ne
  have b: "length (sent st2) \<le> max k (length (sent st))" "r2 = Value () \<longrightarrow> length (sent st2) < k"
    by simp_all
  consider (inj) "fst (shouldFail (ErrorRate cfg) (rngS st))"
    | (pre) "\<not> fst (shouldFail (ErrorRate cfg) (rngS st))"
        "0 < fst (preDelay cfg (snd (shouldFail (ErrorRate cfg) (rngS st)))) \<and> ctxError env st \<noteq> None"
    | (run) "\<not> fst (shouldFail (ErrorRate cfg) (rngS st))"
        "\<not> (0 < fst (preDelay cfg (snd (shouldFail (ErrorRate cfg) (rngS st)))) \<and> ctxError env st \<noteq> None)"
    by blast
  then show ?thesis
  proof cases
    case inj
    with assms have "sent st1 = sent st" by (auto simp add: streamBody_eq)
    then show ?thesis by simp
  next
    case pre
    with assms have "sent st1 = sent st" by (auto simp add: streamBody_eq)
    then show ?thesis by simp
  next
    case run
    show ?thesis
    proof (cases r2)
      case (Value u)
      with run assms(1) \<open>runChunks cfg env ?ds ?st0 = (r2, st2)\<close>
      have "sent st1 = sent st2 @ [streamDone L cfg env req st]"
        by (auto simp add: streamBody_eq split: option.splits)
      with b Value show ?thesis by simp
    next
      case (Failure e2)
      with run assms(1) \<open>runChunks cfg env ?ds ?st0 = (r2, st2)\<close>
      have "st1 = st2" by (auto simp add: streamBody_eq)
      with b show ?thesis by simp
    next
      case (GoPanic m)
      with run assms(1) \<open>runChunks cfg env ?ds ?st0 = (r2, st2)\<close>
      have "st1 = st2" by (auto simp add: streamBody_eq)
      with b show ?thesis by simp
    qed
  qed
qed

text \<open>A stream whose first send fails.\<close>

lemma stream_send_fails:
  assumes "cancelAfter env = None" and "sendErr env (length (sent st)) = Some e"
    and "\<not> fst (shouldFail (ErrorRate cfg) (rngS st))"
  shows "\<exists>d st'. ChatCompletionStream L cfg env req st = Some (Failure e, st')
      \<and> sent st' = sent st @ [deltaChunk d, failedChunk (errorString e)]"
proof -
  let ?ds = "chunksOf (nat (streamCs L cfg req st)) (streamOut L cfg req st)"
  let ?st0 = "st\<lparr>rngS := snd (planOf L cfg req st)\<rparr>"
  have "?ds \<noteq> []"
    using streamCs_pos [of L cfg req st] streamOut_nonempty [of L cfg req st]
    by (intro chunksOf_nonempty_list) simp_all
  then obtain d ds where ds: "?ds = d # ds" by (cases ?ds) auto
  have c0: "ctxError env st = None" "ctxError env ?st0 = None"
    using assms(1) by (simp_all add: ctxError_def)
  have "runChunks cfg env (d # ds) ?st0 = (Failure e, snd (Send env (deltaChunk d) ?st0))"
    using c0 assms(2) by simp
  then have "streamBody L cfg env req st = Some (Failure e, snd (Send env (deltaChunk d) ?st0))"
    using assms(3) c0 by (simp add: streamBody_eq ds)
  then have "ChatCompletionStream L cfg env req st
      = Some (Failure e, snd (Send env (failedChunk (errorString e)) (snd (Send env (deltaChunk d) ?st0))))"
    by (simp add: ChatCompletionStream_eq)
  then show ?thesis by (intro exI [of _ d]) simp
qed

text \<open>
  Claim C2, amended. Whenever the streaming call returns an error \<open>e\<close>, the events it added
  to the stream are: the first \<open>n\<close> planned content chunks, in order, for some \<open>n\<close>; then the
  final event of type \<^verbatim>\<open>output_text.done\<close> only if all chunks were sent and the send of that
  very event returned \<open>e\<close>; then exactly one event of type \<^verbatim>\<open>failed\<close> whose finish reason is the
  text of \<open>e\<close>, sent by the deferred function with the result of the send ignored. It is
  the last event and the only one of its type. This holds for every error, the
  cancellation of the context included. And when the context is finished after \<open>k\<close>
  sends, the call hands the stream no more than the messages that bring the count to \<open>k\<close>
  before the event of type \<^verbatim>\<open>failed\<close>: once the context is finished, no content chunk and no
  final event is sent, only the event of type \<^verbatim>\<open>failed\<close>.
\<close>

theorem abort_sends_one_failed_event:
  assumes "ChatCompletionStream L cfg env req st = Some (Failure e, st')"
  shows "(\<exists>n evs.
        n \<le> length (chunksOf (nat (streamCs L cfg req st)) (streamOut L cfg req st))
        \<and> newEvents st st'
            = map deltaChunk (take n (chunksOf (nat (streamCs L cfg req st)) (streamOut L cfg req st)))
              @ evs @ [failedChunk (errorString e)]
        \<and> (evs = [] \<or> evs = [streamDone L cfg env req st]
              \<and> n = length (chunksOf (nat (streamCs L cfg req st)) (streamOut L cfg req st))
              \<and> sendErr env (length (sent st) + n) = Some e))
     \<and> last (newEvents st st') = failedChunk (errorString e)
     \<and> length (filter (\<lambda>c. Type c = ''failed'') (newEvents st st')) = 1
     \<and> (\<forall>k. cancelAfter env = Some k \<longrightarrow> length (newEvents st st') \<le> Suc (k - length (sent st)))"
proof -
  let ?ds = "chunksOf (nat (streamCs L cfg req st)) (streamOut L cfg req st)"
  from assms obtain r st1 where b: "streamBody L cfg env req st = Some (r, st1)"
    by (auto simp add: ChatCompletionStream_eq split: option.splits)
  with assms have r: "r = Failure e" and s: "sent st' = sent st1 @ [failedChunk (errorString e)]"
    by (auto simp add: ChatCompletionStream_eq split: result.splits)
  from streamBody_abort [OF b [unfolded r]] obtain n evs where
    n: "n \<le> length ?ds" and t: "sent st1 = sent st @ map deltaChunk (take n ?ds) @ evs"
    and e: "evs = [] \<or> evs = [streamDone L cfg env req st] \<and> n = length ?ds
              \<and> sendErr env (length (sent st) + n) = Some e"
    by blast
  have ev: "newEvents st st' = map deltaChunk (take n ?ds) @ evs @ [failedChunk (errorString e)]"
    by (simp add: newEvents_def s t)
  have 1: "\<exists>n evs. n \<le> length ?ds
        \<and> newEvents st st' = map deltaChunk (take n ?ds) @ evs @ [failedChunk (errorString e)]
        \<and> (evs = [] \<or> evs = [streamDone L cfg env req st] \<and> n = length ?ds
              \<and> sendErr env (length (sent st) + n) = Some e)"
    using n ev e by blast
  have 2: "last (newEvents st st') = failedChunk (errorString e)" by (simp add: ev)
  have fd: "filter (\<lambda>c. Type c = ''failed'') (map deltaChunk xs) = []" for xs
    by (induction xs) simp_all
  from e have fe: "filter (\<lambda>c. Type c = ''failed'') evs = []" by auto
  have 3: "length (filter (\<lambda>c. Type c = ''failed'') (newEvents st st')) = 1"
    by (simp add: ev fd fe)
  have 4: "\<forall>k. cancelAfter env = Some k \<longrightarrow> length (newEvents st st') \<le> Suc (k - length (sent st))"
  proof (intro allI impI)
    fix k assume c: "cancelAfter env = Some k"
    from streamBody_bound [OF b c] have "length (sent st1) \<le> max k (length (sent st))" .
    moreover have "length (newEvents st st') = Suc (length (sent st1) - length (sent st))"
      by (simp add: newEvents_def s t)
    ultimately show "length (newEvents st st') \<le> Suc (k - length (sent st))" by auto
  qed
  from 1 2 3 4 show ?thesis by (intro conjI)
qed

theorem abort_sends_one_failed_event_witness:
  "\<exists>st'. ChatCompletionStream asciiLib (baseConfig\<lparr>ChunkSize := 4\<rparr>)
        (quietEnv\<lparr>cancelAfter := Some 1\<rparr>) (request ''cancel me'' 64) freshStream
       = Some (Failure Canceled, st')
     \<and> cancelAfter (quietEnv\<lparr>cancelAfter := Some 1\<rparr>) = Some 1
     \<and> last (newEvents freshStream st') = failedChunk ''context canceled''
     \<and> length (filter (\<lambda>c. Type c = ''failed'') (newEvents freshStream st')) = 1
     \<and> length (newEvents freshStream st') \<le> 2"
proof -
  from cancel_scenario_run obtain st' where
    r: "ChatCompletionStream asciiLib (baseConfig\<lparr>ChunkSize := 4\<rparr>)
        (quietEnv\<lparr>cancelAfter := Some 1\<rparr>) (request ''cancel me'' 64) freshStream
       = Some (Failure Canceled, st')"
    by blast
  have c: "cancelAfter (quietEnv\<lparr>cancelAfter := Some 1\<rparr>) = Some 1" by simp
  from abort_sends_one_failed_event [OF r] c
  have "last (newEvents freshStream st') = failedChunk ''context canceled''"
    "length (filter (\<lambda>c. Type c = ''failed'') (newEvents freshStream st')) = 1"
    "length (newEvents freshStream st') \<le> Suc (1 - length (sent freshStream))"
    by simp_all
  with r c show ?thesis by (auto simp add: freshStream_def)
qed



section \<open>Helper facts for the claims\<close>

lemma grpcTexts_terminal [simp]:
  "grpcTexts [streamDone L cfg env req st] = []" "grpcTexts [failedChunk m] = []"
  by (simp_all add: grpcTexts_def)

lemma BuildOutput_no_echo:
  "BuildOutput q p m False s d c = BuildOutput q p' m False s d c"
  by (simp add: BuildOutput_def)

lemma runes_length_le: "length (runes s) \<le> length s"
proof (induction "length s" arbitrary: s rule: less_induct)
  case less
  show ?case
  proof (cases s)
    case Nil
    then show ?thesis by simp
  next
    case (Cons b0 bs)
    have "length (drop (runeWidth (b0 # bs) - 1) bs) < length s" using Cons by simp
    from less [OF this] have "length (runes (drop (runeWidth (b0 # bs) - 1) bs)) \<le> length bs"
      by simp
    with Cons show ?thesis by simp
  qed
qed

lemma ApproxTokens_bounds: "0 \<le> ApproxTokens s" "ApproxTokens s \<le> (int (length s) + 3) div 4"
proof -
  show "0 \<le> ApproxTokens s" by (simp add: ApproxTokens_eq)
  have "int (length (runes s)) + 3 \<le> int (length s) + 3" using runes_length_le [of s] by simp
  then show "ApproxTokens s \<le> (int (length s) + 3) div 4"
    unfolding ApproxTokens_eq by (rule zdiv_mono1) simp
qed

lemma wrap32_id: "- (2 ^ 31) \<le> x \<Longrightarrow> x < 2 ^ 31 \<Longrightarrow> wrap32 x = x"
  by (simp add: wrap32_def)

text \<open>The unary call without the bookkeeping of the random source.\<close>

lemma ChatCompletion_pass:
  assumes "\<not> fst (shouldFail (ErrorRate cfg) g)" "\<not> Randomize cfg"
  shows "fst (ChatCompletion L cfg env req g) =
    (if 0 < tokensPerSec cfg \<and> wrap32 (tokensPerSec cfg) = 0 then GoPanic ''integer divide by zero''
     else case ctxErrU env of
        Some e \<Rightarrow> Failure e
      | None \<Rightarrow> Value \<lparr> OutputText = BuildOutput (Quote L) (buildPromptForTokens L req)
                   (requestTokens cfg (MaxTokens req)) (EchoPrompt cfg) (StrictTokenMode cfg)
                   (DebugOutputChars cfg) (MaxOutputChars cfg),
                 RFinishReason = ''stop'',
                 RPromptTokens = wrap32 (ApproxTokens (buildPromptForTokens L req)),
                 RCompletionTokens = wrap32 (ApproxTokens (BuildOutput (Quote L) (buildPromptForTokens L req)
                   (requestTokens cfg (MaxTokens req)) (EchoPrompt cfg) (StrictTokenMode cfg)
                   (DebugOutputChars cfg) (MaxOutputChars cfg))),
                 RTotalTokens = wrap32 (wrap32 (ApproxTokens (buildPromptForTokens L req))
                   + wrap32 (ApproxTokens (BuildOutput (Quote L) (buildPromptForTokens L req)
                   (requestTokens cfg (MaxTokens req)) (EchoPrompt cfg) (StrictTokenMode cfg)
                   (DebugOutputChars cfg) (MaxOutputChars cfg)))),
                 RLatencyMs = milliseconds (elapsedU env) \<rparr>)"
  using assms by (simp add: ChatCompletion_def Let_def split_beta split: option.splits)

lemma wrap32_zero_iff: "wrap32 x = 0 \<longleftrightarrow> x mod 2 ^ 32 = 0"
proof -
  define r where "r = x mod 4294967296"
  have r: "0 \<le> r" "r < 4294967296" by (simp_all add: r_def)
  have e: "(x + 2147483648) mod 4294967296 = (r + 2147483648) mod 4294967296"
    unfolding r_def by (simp only: mod_add_left_eq)
  have m: "(r + 2147483648) mod 4294967296 = (if r < 2147483648 then r + 2147483648 else r - 2147483648)"
  proof (cases "r < 2147483648")
    case True
    with r have "(r + 2147483648) mod 4294967296 = r + 2147483648"
      by (intro mod_pos_pos_trivial) simp_all
    with True show ?thesis by simp
  next
    case False
    have "r + 2147483648 = (r - 2147483648) + 4294967296" by simp
    then have "(r + 2147483648) mod 4294967296 = ((r - 2147483648) + 4294967296) mod 4294967296"
      by (simp only:)
    also have "\<dots> = (r - 2147483648) mod 4294967296" by (simp only: mod_add_self2)
    also have "\<dots> = r - 2147483648" using False r by (intro mod_pos_pos_trivial) simp_all
    finally show ?thesis using False by simp
  qed
  have "wrap32 x = (if r < 2147483648 then r else r - 4294967296)"
    unfolding wrap32_def using e m by simp
  with r have "wrap32 x = 0 \<longleftrightarrow> r = 0" by auto
  then show ?thesis by (simp add: r_def)
qed

lemma tokensPerSec_eq: "tokensPerSec cfg = TokensPerSec cfg"
  by (simp add: tokensPerSec_def defaultInt_def)

lemma ChatCompletion_ok:
  "\<not> fst (shouldFail (ErrorRate cfg) g) \<Longrightarrow> ctxErrU env = None \<Longrightarrow>
   \<not> (0 < TokensPerSec cfg \<and> TokensPerSec cfg mod 2 ^ 32 = 0) \<Longrightarrow>
   \<exists>resp. fst (ChatCompletion L cfg env req g) = Value resp \<and> RFinishReason resp = ''stop''"
  by (simp add: ChatCompletion_def Let_def split_beta tokensPerSec_eq wrap32_zero_iff)

lemma ChatCompletion_divide:
  "\<not> fst (shouldFail (ErrorRate cfg) g) \<Longrightarrow>
   0 < TokensPerSec cfg \<Longrightarrow> TokensPerSec cfg mod 2 ^ 32 = 0 \<Longrightarrow>
   fst (ChatCompletion L cfg env req g) = GoPanic ''integer divide by zero''"
  by (simp add: ChatCompletion_def Let_def split_beta tokensPerSec_eq wrap32_zero_iff)

lemma ChatCompletion_injected:
  "fst (shouldFail (ErrorRate cfg) g) \<Longrightarrow>
   ChatCompletion L cfg env req g
     = (Failure (injected L cfg g),
        snd (pickGrpcErrorCode L (ErrorMode cfg) (snd (shouldFail (ErrorRate cfg) g))))"
  by (simp add: ChatCompletion_def Let_def split_beta injected_def)

lemma injected_Status:
  "\<exists>c. injected L cfg g = Status c ''mock error''
      \<and> errorString (injected L cfg g) = ''rpc error: code = '' @ codeName c @ '' desc = mock error''"
  by (simp add: injected_def)



section \<open>Content chunks of a completed request\<close>






section \<open>The two front ends on the same input\<close>

text \<open>
  Claim C1 says that on the same prompt, budget, configuration without randomization and
  effective chunk size, the streaming call and the text-event stream synthesize the same
  output and emit the same content chunk texts. The code does not do so for a budget
  that is not positive: the streaming call replaces it by the configured default, while
  the handler of the text-event stream passes the \<^verbatim>\<open>max_tokens\<close> of its query on and
  \<open>BuildOutput\<close> replaces it by 128. With strict token mode, a default of 50 tokens, no
  echo, the prompt \<^verbatim>\<open>hi\<close>, budget 0 and chunk size 7 on both sides, both calls complete;
  the content chunks of the streaming call add up to 200 bytes and those of the
  text-event stream to 512.
\<close>

theorem grpc_sse_budget_divergence:
  "streamCs asciiLib (baseConfig\<lparr>StrictTokenMode := True, DefaultTokens := 50\<rparr>)
     (request ''hi'' 0) freshStream = 7
   \<and> sseCs (baseConfig\<lparr>StrictTokenMode := True, DefaultTokens := 50\<rparr>) 7 freshResponse = 7
   \<and> map_option (Type \<circ> last \<circ> sent \<circ> snd)
     (ChatCompletionStream asciiLib (baseConfig\<lparr>StrictTokenMode := True, DefaultTokens := 50\<rparr>)
        quietEnv (request ''hi'' 0) freshStream) = Some ''output_text.done''
   \<and> map_option (length \<circ> concat \<circ> grpcTexts \<circ> sent \<circ> snd)
     (ChatCompletionStream asciiLib (baseConfig\<lparr>StrictTokenMode := True, DefaultTokens := 50\<rparr>)
        quietEnv (request ''hi'' 0) freshStream) = Some 200
   \<and> map_option (last \<circ> body \<circ> snd)
     (ChatCompletionSSEHandler asciiLib (baseConfig\<lparr>StrictTokenMode := True, DefaultTokens := 50\<rparr>)
        quietHttp [(''prompt'', ''hi''), (''max_tokens'', ''0''), (''chunk_size'', ''7'')]
        freshResponse) = Some DoneMarker
   \<and> map_option (length \<circ> concat \<circ> sseTexts \<circ> body \<circ> snd)
     (ChatCompletionSSEHandler asciiLib (baseConfig\<lparr>StrictTokenMode := True, DefaultTokens := 50\<rparr>)
        quietHttp [(''prompt'', ''hi''), (''max_tokens'', ''0''), (''chunk_size'', ''7'')]
        freshResponse) = Some 512"
proof -
  let ?cfg = "baseConfig\<lparr>StrictTokenMode := True, DefaultTokens := 50\<rparr>"
  let ?req = "request ''hi'' 0"
  let ?q = "[(''prompt'', ''hi''), (''max_tokens'', ''0''), (''chunk_size'', ''7'')]"
  have f: "\<not> Randomize ?cfg" "ChunkSize ?cfg = 7" "StrictTokenMode ?cfg" "DefaultTokens ?cfg = 50"
    "DebugOutputChars ?cfg = 0" "MaxOutputChars ?cfg = 0" "ErrorRate ?cfg = Finite 0"
    "\<not> EchoPrompt ?cfg"
    by (simp_all add: baseConfig_def)
  have c2: "streamCs asciiLib ?cfg ?req freshStream = 7"
    by (simp add: base_plan [OF f(1)] chunkSize_def defaultInt_def f)
  have c: "sseCs ?cfg 7 freshResponse = 7"
    by (simp add: sseCs_def sseChunkSize_def defaultInt_def baseConfig_def)
  have "\<exists>st'. ChatCompletionStream asciiLib ?cfg quietEnv ?req freshStream = Some (Value (), st')"
    by (rule stream_ok) (simp_all add: quietEnv_def f)
  then obtain st' where a: "ChatCompletionStream asciiLib ?cfg quietEnv ?req freshStream = Some (Value (), st')"
    by blast
  have cs: "0 < nat (streamCs asciiLib ?cfg ?req freshStream)"
    using streamCs_pos [of asciiLib ?cfg ?req freshStream] by simp
  have ev: "newEvents freshStream st' = sent st'" by (simp add: newEvents_def freshStream_def)
  from stream_completed_chunks [OF a]
  have se: "sent st' = map deltaChunk (chunksOf (nat (streamCs asciiLib ?cfg ?req freshStream))
                 (streamOut asciiLib ?cfg ?req freshStream))
               @ [streamDone asciiLib ?cfg quietEnv ?req freshStream]"
    by (simp only: ev)
  then have g1: "Type (last (sent st')) = ''output_text.done''" by simp
  from se have "grpcTexts (sent st') = chunksOf (nat (streamCs asciiLib ?cfg ?req freshStream)) (streamOut asciiLib ?cfg ?req freshStream)"
    by simp
  then have "concat (grpcTexts (sent st')) = streamOut asciiLib ?cfg ?req freshStream"
    by (simp add: concat_chunksOf [OF cs])
  moreover have "int (length (streamOut asciiLib ?cfg ?req freshStream)) = 200"
    by (simp add: length_streamOut [OF f(1)] f requestTokens_def defaultInt_def wrap32_def
        targetLen_def wrap64_def request_def)
  ultimately have g2: "length (concat (grpcTexts (sent st'))) = 200" by simp
  have h: "ChatCompletionSSEHandler asciiLib ?cfg quietHttp ?q freshResponse
      = serveChatCompletionSSE asciiLib quietHttp ''mock-sse'' ''hi'' 0 ?cfg 7 freshResponse"
    by (simp add: ChatCompletionSSEHandler_def qGet_def asciiLib_def asciiAtoi_def digitVal_def
        Let_def)
  have "\<exists>st'. serveChatCompletionSSE asciiLib quietHttp ''mock-sse'' ''hi'' 0 ?cfg 7 freshResponse
      = Some (Value (), st')
     \<and> newFrames freshResponse st'
         = Data (jsonMarshal (sseRole quietHttp ''mock-sse'' freshResponse))
           # map (\<lambda>d. Data (jsonMarshal (contentFrame (sseCid freshResponse) (nowUnix quietHttp) ''mock-sse'' d)))
               (chunksOf (nat (sseCs ?cfg 7 freshResponse)) (sseContent asciiLib ?cfg ''hi'' 0))
           @ [Data (jsonMarshal (lastFrame (sseCid freshResponse) (nowUnix quietHttp) ''mock-sse'')), DoneMarker]"
    by (rule serve_ok) (simp_all add: quietHttp_def c)
  then obtain hst' where
    b: "serveChatCompletionSSE asciiLib quietHttp ''mock-sse'' ''hi'' 0 ?cfg 7 freshResponse
      = Some (Value (), hst')"
    and n: "newFrames freshResponse hst'
         = Data (jsonMarshal (sseRole quietHttp ''mock-sse'' freshResponse))
           # map (\<lambda>d. Data (jsonMarshal (contentFrame (sseCid freshResponse) (nowUnix quietHttp) ''mock-sse'' d)))
               (chunksOf 7 (sseContent asciiLib ?cfg ''hi'' 0))
           @ [Data (jsonMarshal (lastFrame (sseCid freshResponse) (nowUnix quietHttp) ''mock-sse'')), DoneMarker]"
    by (auto simp add: c)
  have ne: "\<forall>d \<in> set (chunksOf 7 (sseContent asciiLib ?cfg ''hi'' 0)). d \<noteq> []"
    using chunksOf_bounds [of 7] by auto
  have bd: "newFrames freshResponse hst' = body hst'" by (simp add: newFrames_def freshResponse_def)
  from n have s1: "last (body hst') = DoneMarker" unfolding bd by simp
  have pl: "map toValidUTF8 (chunksOf 7 (sseContent asciiLib ?cfg ''hi'' 0))
      = chunksOf 7 (sseContent asciiLib ?cfg ''hi'' 0)"
    using sseContent_plain [OF f(8), of 7 asciiLib "''hi''" 0] by simp
  from n have "sseTexts (body hst') = chunksOf 7 (sseContent asciiLib ?cfg ''hi'' 0)"
    unfolding bd by (simp add: sseRole_def sseTexts_contents [OF ne] pl)
  then have "concat (sseTexts (body hst')) = sseContent asciiLib ?cfg ''hi'' 0"
    by (simp add: concat_chunksOf)
  moreover have "int (length (sseContent asciiLib ?cfg ''hi'' 0)) = 512"
    by (simp add: sseContent_def BuildOutput_length f targetLen_def wrap64_def)
  ultimately have s2: "length (concat (sseTexts (body hst'))) = 512" by simp
  show ?thesis
    by (simp only: c c2 a h b option.map comp_apply snd_conv g1 g2 s1 s2 simp_thms)
qed

section \<open>Error injection\<close>

text \<open>
  Claim C6, as the specification states it, fails at rate 0 in two ways. The unary call
  computes its simulated latency with a division by \<^verbatim>\<open>int32(tps)\<close>, and a tokens-per-second
  setting of \<open>2\<^sup>3\<^sup>2\<close> is positive and converts to 0: with error rate 0 and a context that is
  not cancelled, the call panics with a division by zero instead of returning its
  response. And a streaming call whose context is never cancelled returns the error of
  a send that fails, after one content chunk and the event of type \<^verbatim>\<open>failed\<close>.
\<close>

theorem rate_zero_failures_counterexample:
  "ErrorRate (baseConfig\<lparr>TokensPerSec := 2 ^ 32\<rparr>) = Finite 0
   \<and> ctxErrU quietCall = None
   \<and> fst (ChatCompletion asciiLib (baseConfig\<lparr>TokensPerSec := 2 ^ 32\<rparr>) quietCall
            (request ''hi'' 1) zeroRng)
       = GoPanic ''integer divide by zero''
   \<and> ErrorRate baseConfig = Finite 0
   \<and> cancelAfter (quietEnv\<lparr>sendErr := (\<lambda>_. Some (Transport ''transport is closing''))\<rparr>) = None
   \<and> map_option (apsnd (map Type \<circ> sent))
        (ChatCompletionStream asciiLib baseConfig
           (quietEnv\<lparr>sendErr := (\<lambda>_. Some (Transport ''transport is closing''))\<rparr>)
           (request ''hi'' 1) freshStream)
       = Some (Failure (Transport ''transport is closing''), [''output_text.delta'', ''failed''])"
proof -
  let ?cfg = "baseConfig\<lparr>TokensPerSec := 2 ^ 32\<rparr>"
  let ?env = "quietEnv\<lparr>sendErr := (\<lambda>_. Some (Transport ''transport is closing''))\<rparr>"
  have f: "ErrorRate ?cfg = Finite 0" "TokensPerSec ?cfg = 2 ^ 32" "ErrorRate baseConfig = Finite 0"
    by (simp_all add: baseConfig_def)
  have u: "fst (ChatCompletion asciiLib ?cfg quietCall (request ''hi'' 1) zeroRng)
      = GoPanic ''integer divide by zero''"
    by (rule ChatCompletion_divide) (simp_all add: baseConfig_def)
  have e: "cancelAfter ?env = None"
    "sendErr ?env (length (sent freshStream)) = Some (Transport ''transport is closing'')"
    "\<not> fst (shouldFail (ErrorRate baseConfig) (rngS freshStream))"
    by (simp_all add: quietEnv_def f)
  from stream_send_fails [OF e, of asciiLib "request ''hi'' 1"] obtain d st' where
    "ChatCompletionStream asciiLib baseConfig ?env (request ''hi'' 1) freshStream
       = Some (Failure (Transport ''transport is closing''), st')"
    "sent st' = sent freshStream @ [deltaChunk d, failedChunk (errorString (Transport ''transport is closing''))]"
    by blast
  then have s: "map_option (apsnd (map Type \<circ> sent))
        (ChatCompletionStream asciiLib baseConfig ?env (request ''hi'' 1) freshStream)
       = Some (Failure (Transport ''transport is closing''), [''output_text.delta'', ''failed''])"
    by (simp add: freshStream_def)
  from f(1,3) u e(1) s show ?thesis by (simp add: quietCall_def)
qed

text \<open>
  Claim C6, amended. \<open>shouldFail\<close> always fails at rate 1 and never at rate 0, without
  drawing. At rate 1 the unary call returns the injected status error and the streaming
  call returns it after sending exactly one event, of type \<^verbatim>\<open>failed\<close>, whose finish reason
  is the text of the error. Whenever the injector decides to fail, nothing but the choice
  of the error code happens before the return: the results do not depend on the request
  or the surroundings, the unary call returns no response, and the stream gets no content
  chunk. At rate 0 a unary call whose context is not cancelled returns its response,
  provided the tokens-per-second setting is not a positive multiple of \<open>2\<^sup>3\<^sup>2\<close>; and a stream
  whose context is not cancelled and whose sends succeed returns without error.
\<close>

theorem error_injection:
  "shouldFail (Finite 1) g = (True, g)
   \<and> shouldFail (Finite 0) g = (False, g)
   \<and> (ErrorRate cfg1 = Finite 1 \<longrightarrow>
        (\<exists>c. fst (ChatCompletion L cfg1 uenv req g) = Failure (Status c ''mock error''))
        \<and> (\<exists>c st'. ChatCompletionStream L cfg1 env req st = Some (Failure (Status c ''mock error''), st')
              \<and> newEvents st st'
                   = [failedChunk (''rpc error: code = '' @ codeName c @ '' desc = mock error'')]))
   \<and> (fst (shouldFail (ErrorRate cfg1) g) \<longrightarrow>
        ChatCompletion L cfg1 uenv req g
          = (Failure (injected L cfg1 g),
             snd (pickGrpcErrorCode L (ErrorMode cfg1) (snd (shouldFail (ErrorRate cfg1) g)))))
   \<and> (fst (shouldFail (ErrorRate cfg1) (rngS st)) \<longrightarrow>
        ChatCompletionStream L cfg1 env req st
          = Some (Failure (injected L cfg1 (rngS st)),
              st\<lparr>rngS := snd (pickGrpcErrorCode L (ErrorMode cfg1)
                               (snd (shouldFail (ErrorRate cfg1) (rngS st)))),
                 sent := sent st @ [failedChunk (errorString (injected L cfg1 (rngS st)))]\<rparr>))
   \<and> (ErrorRate cfg0 = Finite 0 \<and> ctxErrU uenv0 = None
        \<and> \<not> (0 < TokensPerSec cfg0 \<and> TokensPerSec cfg0 mod 2 ^ 32 = 0) \<longrightarrow>
        (\<exists>resp. fst (ChatCompletion L cfg0 uenv0 req g) = Value resp
           \<and> RFinishReason resp = ''stop''))
   \<and> (ErrorRate cfg0 = Finite 0 \<and> cancelAfter env0 = None \<and> (\<forall>n. sendErr env0 n = None) \<longrightarrow>
        (\<exists>st'. ChatCompletionStream L cfg0 env0 req st = Some (Value (), st')))"
proof (intro conjI impI)
  show "shouldFail (Finite 1) g = (True, g)" "shouldFail (Finite 0) g = (False, g)" by simp_all
next
  assume r: "ErrorRate cfg1 = Finite 1"
  then have f: "fst (shouldFail (ErrorRate cfg1) g)" "fst (shouldFail (ErrorRate cfg1) (rngS st))"
    by simp_all
  from injected_Status [of L cfg1 g] ChatCompletion_injected [OF f(1), of L uenv req]
  show "\<exists>c. fst (ChatCompletion L cfg1 uenv req g) = Failure (Status c ''mock error'')"
    by auto
  from injected_Status [of L cfg1 "rngS st"] obtain c where
    c: "injected L cfg1 (rngS st) = Status c ''mock error''"
       "errorString (injected L cfg1 (rngS st)) = ''rpc error: code = '' @ codeName c @ '' desc = mock error''"
    by blast
  from stream_injected [OF f(2), of L env req]
  show "\<exists>c st'. ChatCompletionStream L cfg1 env req st = Some (Failure (Status c ''mock error''), st')
      \<and> newEvents st st' = [failedChunk (''rpc error: code = '' @ codeName c @ '' desc = mock error'')]"
    by (simp add: c newEvents_def)
next
  assume "fst (shouldFail (ErrorRate cfg1) g)"
  then show "ChatCompletion L cfg1 uenv req g
          = (Failure (injected L cfg1 g),
             snd (pickGrpcErrorCode L (ErrorMode cfg1) (snd (shouldFail (ErrorRate cfg1) g))))"
    by (rule ChatCompletion_injected)
next
  assume "fst (shouldFail (ErrorRate cfg1) (rngS st))"
  then show "ChatCompletionStream L cfg1 env req st
          = Some (Failure (injected L cfg1 (rngS st)),
              st\<lparr>rngS := snd (pickGrpcErrorCode L (ErrorMode cfg1)
                               (snd (shouldFail (ErrorRate cfg1) (rngS st)))),
                 sent := sent st @ [failedChunk (errorString (injected L cfg1 (rngS st)))]\<rparr>)"
    by (rule stream_injected)
next
  assume "ErrorRate cfg0 = Finite 0 \<and> ctxErrU uenv0 = None
        \<and> \<not> (0 < TokensPerSec cfg0 \<and> TokensPerSec cfg0 mod 2 ^ 32 = 0)"
  then show "\<exists>resp. fst (ChatCompletion L cfg0 uenv0 req g) = Value resp
           \<and> RFinishReason resp = ''stop''"
    by (intro ChatCompletion_ok) simp_all
next
  assume "ErrorRate cfg0 = Finite 0 \<and> cancelAfter env0 = None \<and> (\<forall>n. sendErr env0 n = None)"
  then show "\<exists>st'. ChatCompletionStream L cfg0 env0 req st = Some (Value (), st')"
    by (intro stream_ok) simp_all
qed

theorem error_injection_witness:
  "ErrorRate (baseConfig\<lparr>ErrorRate := Finite 1, ErrorMode := ''500''\<rparr>) = Finite 1
   \<and> fst (shouldFail (ErrorRate (baseConfig\<lparr>ErrorRate := Finite 1, ErrorMode := ''500''\<rparr>)) zeroRng)
   \<and> fst (ChatCompletion asciiLib (baseConfig\<lparr>ErrorRate := Finite 1, ErrorMode := ''500''\<rparr>)
            quietCall (request [] 1) zeroRng) = Failure (Status Internal ''mock error'')
   \<and> map_option (apsnd sent)
        (ChatCompletionStream asciiLib (baseConfig\<lparr>ErrorRate := Finite 1, ErrorMode := ''500''\<rparr>)
           quietEnv (request [] 0) freshStream)
       = Some (Failure (Status Internal ''mock error''),
               [failedChunk ''rpc error: code = Internal desc = mock error''])
   \<and> ErrorRate baseConfig = Finite 0 \<and> ctxErrU quietCall = None
   \<and> TokensPerSec baseConfig = 0
   \<and> cancelAfter quietEnv = None \<and> (\<forall>n. sendErr quietEnv n = None)
   \<and> (\<exists>resp. fst (ChatCompletion asciiLib baseConfig quietCall (request [] 1) zeroRng) = Value resp
         \<and> RFinishReason resp = ''stop'')
   \<and> (\<exists>st'. ChatCompletionStream asciiLib baseConfig quietEnv (request [] 0) freshStream
          = Some (Value (), st'))"
proof -
  let ?cfg1 = "baseConfig\<lparr>ErrorRate := Finite 1, ErrorMode := ''500''\<rparr>"
  have f1: "ErrorRate ?cfg1 = Finite 1" "ErrorMode ?cfg1 = ''500''" by (simp_all add: baseConfig_def)
  have f0: "ErrorRate baseConfig = Finite 0" "ctxErrU quietCall = None"
    "cancelAfter quietEnv = None" "\<forall>n. sendErr quietEnv n = None" "TokensPerSec baseConfig = 0"
    by (simp_all add: baseConfig_def quietCall_def quietEnv_def)
  have s1: "fst (shouldFail (ErrorRate ?cfg1) zeroRng)" "fst (shouldFail (ErrorRate ?cfg1) (rngS freshStream))"
    by (simp_all add: f1)
  have code: "pickGrpcErrorCode asciiLib ''500'' g = (Internal, g)" for g
    by (simp add: pickGrpcErrorCode_def asciiLib_def asciiToLower_def TrimSpace_def
        spaceRunes_def spaceWidth_def)
  have inj: "injected asciiLib ?cfg1 g = Status Internal ''mock error''" for g
    by (simp add: injected_def f1 code)
  note t = error_injection [of zeroRng ?cfg1 asciiLib quietCall "request [] 1" quietEnv freshStream
      baseConfig quietCall quietEnv]
  note t2 = error_injection [of zeroRng ?cfg1 asciiLib quietCall "request [] 0" quietEnv freshStream
      baseConfig quietCall quietEnv]
  from t s1 have a: "fst (ChatCompletion asciiLib ?cfg1 quietCall (request [] 1) zeroRng)
      = Failure (Status Internal ''mock error'')"
    by (simp add: inj)
  from t2 s1 have b: "map_option (apsnd sent) (ChatCompletionStream asciiLib ?cfg1 quietEnv (request [] 0) freshStream)
       = Some (Failure (Status Internal ''mock error''),
               [failedChunk ''rpc error: code = Internal desc = mock error''])"
    by (simp add: inj freshStream_def)
  from t f0 have c: "\<exists>resp. fst (ChatCompletion asciiLib baseConfig quietCall (request [] 1) zeroRng) = Value resp
      \<and> RFinishReason resp = ''stop''"
    by simp
  from t2 f0 have d: "\<exists>st'. ChatCompletionStream asciiLib baseConfig quietEnv (request [] 0) freshStream
          = Some (Value (), st')"
    by blast
  from a b c d f1 f0 s1 show ?thesis by blast
qed

section \<open>The unary scenario\<close>

text \<open>
  Claim C7. For a unary request with user prompt \<^verbatim>\<open>tell me a joke\<close> and budget 12, strict
  token mode, no echo, no randomization, debug size and cap 0, tokens-per-second 0 and
  error rate 0, with a context that is not cancelled and an assembled prompt below
  \<open>2\<^sup>3\<^sup>2\<close> bytes: the call returns a response whose text is
  \<open>BuildOutput\<close> of the prompt and 12 (no echo, strict, debug size 0, default cap), whose
  finish reason is \<^verbatim>\<open>stop\<close>, whose latency is not negative, whose prompt and completion
  tokens are \<open>ApproxTokens\<close> of the assembled prompt and of the text, and whose total is
  their sum.
\<close>

theorem unary_scenario:
  assumes "UserPrompt req = ''tell me a joke''" and "MaxTokens req = 12"
    and "StrictTokenMode cfg" and "ErrorRate cfg = Finite 0"
    and "\<not> Randomize cfg" and "\<not> EchoPrompt cfg"
    and "DebugOutputChars cfg = 0" and "MaxOutputChars cfg = 0"
    and "TokensPerSec cfg = 0" and "ctxErrU env = None"
    and "length (buildPromptForTokens L req) < 2 ^ 32"
  shows "\<exists>resp. fst (ChatCompletion L cfg env req g) = Value resp
      \<and> OutputText resp = BuildOutput (Quote L) ''tell me a joke'' 12 False True 0 0
      \<and> RFinishReason resp = ''stop''
      \<and> 0 \<le> RLatencyMs resp
      \<and> RPromptTokens resp = ApproxTokens (buildPromptForTokens L req)
      \<and> RCompletionTokens resp = ApproxTokens (OutputText resp)
      \<and> RTotalTokens resp = RPromptTokens resp + RCompletionTokens resp"
proof -
  let ?p = "buildPromptForTokens L req"
  let ?out = "BuildOutput (Quote L) ?p 12 False True 0 0"
  have nf: "\<not> fst (shouldFail (ErrorRate cfg) g)" using assms(4) by simp
  have out: "?out = BuildOutput (Quote L) ''tell me a joke'' 12 False True 0 0"
    by (rule BuildOutput_no_echo)
  have "int (length ?out) = 64" by (simp add: BuildOutput_length targetLen_def wrap64_def)
  with ApproxTokens_bounds [of ?out] have ct: "0 \<le> ApproxTokens ?out" "ApproxTokens ?out \<le> 16"
    by simp_all
  have "(int (length ?p) + 3) div 4 \<le> (2 ^ 32 + 3) div 4"
    using assms(11) by (intro zdiv_mono1) simp_all
  with ApproxTokens_bounds [of ?p] have pt: "0 \<le> ApproxTokens ?p" "ApproxTokens ?p \<le> 2 ^ 30"
    by simp_all
  have w1: "wrap32 (ApproxTokens ?p) = ApproxTokens ?p" using pt by (intro wrap32_id) simp_all
  have w2: "wrap32 (ApproxTokens ?out) = ApproxTokens ?out" using ct by (intro wrap32_id) simp_all
  have w3: "wrap32 (ApproxTokens ?p + ApproxTokens ?out) = ApproxTokens ?p + ApproxTokens ?out"
    using pt ct by (intro wrap32_id) simp_all
  have "fst (ChatCompletion L cfg env req g)
      = Value \<lparr> OutputText = ?out, RFinishReason = ''stop'', RPromptTokens = ApproxTokens ?p,
                RCompletionTokens = ApproxTokens ?out,
                RTotalTokens = ApproxTokens ?p + ApproxTokens ?out,
                RLatencyMs = milliseconds (elapsedU env) \<rparr>"
    using assms(2,3,5,6,7,8,9,10)
    by (simp add: ChatCompletion_pass [OF nf assms(5)] tokensPerSec_def defaultInt_def
        requestTokens_def w1 w2 w3)
  then show ?thesis using out by (simp add: milliseconds_def)
qed

theorem unary_scenario_witness:
  "\<exists>resp. fst (ChatCompletion asciiLib (baseConfig\<lparr>StrictTokenMode := True\<rparr>) quietCall
              (request ''tell me a joke'' 12) zeroRng) = Value resp
      \<and> OutputText resp = BuildOutput (Quote asciiLib) ''tell me a joke'' 12 False True 0 0
      \<and> RFinishReason resp = ''stop''
      \<and> RPromptTokens resp = 6
      \<and> RTotalTokens resp = RPromptTokens resp + RCompletionTokens resp"
proof -
  let ?cfg = "baseConfig\<lparr>StrictTokenMode := True\<rparr>"
  let ?req = "request ''tell me a joke'' 12"
  have p: "buildPromptForTokens asciiLib ?req = ''[user]\<newline>tell me a joke''"
    by (simp add: buildPromptForTokens_def request_def TrimSpace_plain)
  have h: "UserPrompt ?req = ''tell me a joke''" "MaxTokens ?req = 12"
    "StrictTokenMode ?cfg" "ErrorRate ?cfg = Finite 0"
    "\<not> Randomize ?cfg" "\<not> EchoPrompt ?cfg"
    "DebugOutputChars ?cfg = 0" "MaxOutputChars ?cfg = 0"
    "TokensPerSec ?cfg = 0" "ctxErrU quietCall = None"
    "length (buildPromptForTokens asciiLib ?req) < 2 ^ 32"
    by (simp_all add: p) (simp_all add: baseConfig_def request_def quietCall_def)
  have "ApproxTokens ''[user]\<newline>tell me a joke'' = 6" by (simp add: ApproxTokens_def)
  with unary_scenario [OF h, of zeroRng] p show ?thesis by auto
qed

section \<open>A request without prompt\<close>

text \<open>
  Claim C10. If the query of a request to the text-event handler has no \<^verbatim>\<open>prompt\<close> parameter
  or an empty one, the handler answers with status 400 and writes nothing but the text of
  the error: no role frame, no content frame, no final frame and no \<^verbatim>\<open>[DONE]\<close> sentinel.
\<close>

theorem handler_requires_prompt:
  assumes "map_of q ''prompt'' = None \<or> map_of q ''prompt'' = Some []"
  shows "\<exists>st'. ChatCompletionSSEHandler L cfg env q st = Some (Value (), st')
      \<and> status st' = 400
      \<and> newFrames st st' = [Plain ''prompt is required\<newline>'']
      \<and> buf st' = buf st
      \<and> sseTexts (newFrames st st') = []"
proof -
  from assms have "qGet q ''prompt'' = []" by (auto simp add: qGet_def)
  then have "ChatCompletionSSEHandler L cfg env q st
     = Some (Value (), httpError ''prompt is required'' 400 st)"
    by (rule handler_no_prompt)
  then show ?thesis by (simp add: httpError_def newFrames_def)
qed

theorem handler_requires_prompt_witness:
  "map_of [(''model'', ''m''), (''max_tokens'', ''6'')] ''prompt'' = None
   \<and> (\<exists>st'. ChatCompletionSSEHandler asciiLib baseConfig quietHttp
              [(''model'', ''m''), (''max_tokens'', ''6'')] freshResponse = Some (Value (), st')
        \<and> status st' = 400 \<and> body st' = [Plain ''prompt is required\<newline>''])"
proof -
  have a: "map_of [(''model'', ''m''), (''max_tokens'', ''6'')] ''prompt'' = None" by simp
  then have "map_of [(''model'', ''m''), (''max_tokens'', ''6'')] ''prompt'' = None
      \<or> map_of [(''model'', ''m''), (''max_tokens'', ''6'')] ''prompt'' = Some []" by (rule disjI1)
  from handler_requires_prompt [OF this, of asciiLib baseConfig quietHttp freshResponse] a
  show ?thesis by (auto simp add: newFrames_def freshResponse_def)
qed

section \<open>The target-token randomizer\<close>

lemma pow2_powi: "pow2 e = 2 powi e"
  by (simp add: pow2_def power_int_def field_simps)

lemma pow2_pos [simp]: "0 < pow2 e"
  by (simp add: pow2_powi)

lemma pow2_mono: "a \<le> b \<Longrightarrow> pow2 a \<le> pow2 b"
  by (simp add: pow2_powi power_int_increasing)

lemma pow2_add: "pow2 (a + b) = pow2 a * pow2 b"
  by (simp add: pow2_powi power_int_add)

lemma f64exp_le:
  assumes "0 < x"
  shows "pow2 (f64exp x) \<le> x"
proof -
  obtain p q where pq: "quotient_of x = (p, q)" by (cases "quotient_of x")
  then have q: "0 < q" by (rule quotient_of_denom_pos)
  from pq have x: "x = of_int p / of_int q" by (rule quotient_of_div)
  with assms q have p: "0 < p" by (simp add: zero_less_divide_iff)
  define bp where "bp = bitlen p"
  define bq where "bq = bitlen q"
  from bitlen_bounds [OF p] have pl: "2 ^ nat (bp - 1) \<le> p" by (simp add: bp_def)
  from bitlen_bounds [OF q] have qu: "q < 2 ^ nat bq" by (simp add: bq_def)
  have bp1: "1 \<le> bp" using p bitlen_eq_zero_iff [of p] bitlen_nonneg [of p] by (simp add: bp_def) 
  have bq0: "0 \<le> bq" by (simp add: bq_def bitlen_nonneg)
  show ?thesis
  proof (cases "pow2 (bp - bq) \<le> x")
    case True
    then show ?thesis using pq by (simp add: f64exp_def Let_def bp_def bq_def)
  next
    case False
    then have e: "f64exp x = bp - bq - 1" using pq by (simp add: f64exp_def Let_def bp_def bq_def)
    have "pow2 (bp - bq - 1) = 2 powi (bp - 1) / 2 powi bq"
      by (simp add: pow2_powi power_int_diff [symmetric] algebra_simps)
    also have "\<dots> = (2 ^ nat (bp - 1)) / (2 ^ nat bq)"
      using bp1 bq0 by (simp add: power_int_def)
    also have "\<dots> \<le> (of_int p :: rat) / (2 ^ nat bq)"
    proof -
      have "(2 ^ nat (bp - 1) :: rat) \<le> of_int p" using pl
        by (metis of_int_le_iff of_int_numeral of_int_power)
      then show ?thesis by (simp add: divide_right_mono)
    qed
    also have "\<dots> \<le> of_int p / of_int q"
    proof -
      have "(of_int q :: rat) \<le> 2 ^ nat bq" using qu
        by (metis less_imp_le of_int_le_iff of_int_numeral of_int_power)
      moreover have "(0 :: rat) < of_int q" using q by simp
      moreover have "(0 :: rat) \<le> of_int p" using p by simp
      ultimately show ?thesis by (simp add: frac_le)
    qed
    finally show ?thesis using e x by simp
  qed
qed

lemma roundEven_bounds: "\<lfloor>m\<rfloor> \<le> roundEven m" "roundEven m \<le> \<lceil>m\<rceil>"
proof -
  show "\<lfloor>m\<rfloor> \<le> roundEven m" by (simp add: roundEven_def Let_def)
  have "m \<noteq> of_int \<lfloor>m\<rfloor> \<Longrightarrow> \<lceil>m\<rceil> = \<lfloor>m\<rfloor> + 1"
    by (metis ceiling_altdef)
  moreover have "0 < m - of_int \<lfloor>m\<rfloor> \<Longrightarrow> m \<noteq> of_int \<lfloor>m\<rfloor>" by simp
  moreover have "\<lfloor>m\<rfloor> \<le> \<lceil>m\<rceil>" by (simp add: floor_le_ceiling)
  ultimately show "roundEven m \<le> \<lceil>m\<rceil>"
    by (auto simp add: roundEven_def Let_def not_less)
qed

lemma f64round_pos:
  assumes "0 < x"
  shows "0 < f64round x"
proof -
  define u where "u = pow2 (f64exp x - 52)"
  have u: "0 < u" by (simp add: u_def)
  have "pow2 (f64exp x - 52 + 52) = pow2 (f64exp x - 52) * pow2 52"
    by (rule pow2_add)
  then have "pow2 (f64exp x) = pow2 (f64exp x - 52) * pow2 52" by simp
  then have "u * 2 ^ 52 \<le> x" using f64exp_le [OF assms] by (simp add: u_def pow2_def)
  then have "2 ^ 52 \<le> x / u" using u by (simp add: pos_le_divide_eq mult.commute)
  then have "(1 :: rat) \<le> x / u" by simp
  then have "1 \<le> \<lfloor>x / u\<rfloor>" by (simp add: le_floor_iff)
  with roundEven_bounds(1) [of "x / u"] have "1 \<le> roundEven (x / u)" by linarith
  then have "(0 :: rat) < of_int (roundEven (x / u))" by simp
  with u have "0 < of_int (roundEven (x / u)) * u" by simp
  then show ?thesis using assms by (simp add: f64round_def Let_def u_def)
qed

lemma f64round_le_int:
  assumes "0 < x" and "x \<le> of_int M" and "M < 2 ^ 53"
  shows "f64round x \<le> of_int M"
proof -
  define e where "e = f64exp x"
  define u where "u = pow2 (e - 52)"
  have u: "0 < u" by (simp add: u_def)
  have e52: "e \<le> 52"
  proof (rule ccontr)
    assume "\<not> e \<le> 52"
    then have "53 \<le> e" by simp
    then have "pow2 53 \<le> pow2 e" by (rule pow2_mono)
    also have "\<dots> \<le> x" unfolding e_def by (rule f64exp_le [OF assms(1)])
    also have "\<dots> \<le> of_int M" by (rule assms(2))
    finally have "(2 ^ 53 :: rat) \<le> of_int M" by (simp add: pow2_def)
    then have "(of_int (2 ^ 53) :: rat) \<le> of_int M" by simp
    then have "2 ^ 53 \<le> M" by (simp only: of_int_le_iff)
    with assms(3) show False by simp
  qed
  have ui: "1 / u = of_int (2 ^ nat (52 - e))"
    using e52 by (cases "e = 52") (simp_all add: u_def pow2_def)
  have "x / u \<le> of_int M / u" using assms(2) u by (simp add: divide_right_mono)
  also have "of_int M / u = of_int (M * 2 ^ nat (52 - e))"
  proof -
    have "of_int M / u = of_int M * (1 / u)" by simp
    also have "\<dots> = of_int M * of_int (2 ^ nat (52 - e))" by (simp only: ui)
    finally show ?thesis by simp
  qed
  finally have "\<lceil>x / u\<rceil> \<le> M * 2 ^ nat (52 - e)" by (simp only: ceiling_le_iff)
  with roundEven_bounds(2) [of "x / u"] have "roundEven (x / u) \<le> M * 2 ^ nat (52 - e)"
    by linarith
  then have "(of_int (roundEven (x / u)) :: rat) \<le> of_int (M * 2 ^ nat (52 - e))"
    by (simp only: of_int_le_iff)
  then have "of_int (roundEven (x / u)) * u \<le> of_int (M * 2 ^ nat (52 - e)) * u"
    using u by (simp add: mult_right_mono)
  also have "of_int (M * 2 ^ nat (52 - e)) * u = of_int M"
  proof -
    have "(1 / u) * u = 1" using u by simp
    then have "(of_int (2 ^ nat (52 - e)) :: rat) * u = 1" by (simp only: ui)
    then have "of_int M * ((of_int (2 ^ nat (52 - e)) :: rat) * u) = of_int M" by simp
    then show ?thesis by (simp add: mult.assoc)
  qed
  finally show ?thesis using assms(1) by (simp add: f64round_def Let_def u_def e_def)
qed

lemma int32OfFloat_range:
  assumes "0 \<le> y" and "y \<le> of_int M" and "M < 2 ^ 31"
  shows "0 \<le> int32OfFloat y \<and> int32OfFloat y \<le> M"
proof -
  have f0: "0 \<le> \<lfloor>y\<rfloor>" using assms(1) by simp
  have fM: "\<lfloor>y\<rfloor> \<le> M" using assms(2) by (simp add: floor_le_iff)
  have p31: "(2 :: int) ^ 31 = 2147483648" by simp
  have "- (2 ^ 31) \<le> \<lfloor>y\<rfloor>" using f0 unfolding p31 by linarith
  moreover have "\<lfloor>y\<rfloor> < 2 ^ 31" using fM assms(3) unfolding p31 by linarith
  ultimately have "wrap32 \<lfloor>y\<rfloor> = \<lfloor>y\<rfloor>" by (rule wrap32_id)
  with f0 fM assms(1) show ?thesis by (simp add: int32OfFloat_def)
qed

lemma fmul_range:
  assumes "1 \<le> M" and "M < 2 ^ 31" and "0 < c" and "c \<le> 1"
  shows "0 \<le> int32OfFloat (fmul (of_int M) c) \<and> int32OfFloat (fmul (of_int M) c) \<le> M"
proof -
  have x0: "0 < of_int M * c" using assms(1,3) by simp
  have "of_int M * c \<le> of_int M * 1" using assms(1,4) by (intro mult_left_mono) simp_all
  then have xM: "of_int M * c \<le> of_int M" by simp
  have "M < 2 ^ 53" using assms(2) by simp
  from f64round_le_int [OF x0 xM this] f64round_pos [OF x0] assms(2)
  show ?thesis unfolding fmul_def by (intro int32OfFloat_range) simp_all
qed

lemma const_range: "0 < c \<Longrightarrow> c \<le> 1 \<Longrightarrow> 0 < f64round c \<and> f64round c \<le> 1"
  using f64round_pos [of c] f64round_le_int [of c 1] by simp

lemma pickFrac_range:
  assumes "1 \<le> M" and "M < 2 ^ 31" and "0 < fst b" and "fst b \<le> 1" and "0 < snd b" and "snd b \<le> 1"
  shows "fst (pickFrac M (fst b) (snd b) g)
           = bucketMin M b + int (fst (nextRaw g)) mod (bucketMax M b - bucketMin M b + 1)
     \<and> 1 \<le> bucketMin M b \<and> bucketMin M b \<le> bucketMax M b \<and> bucketMax M b \<le> M"
proof -
  define a where "a = int32OfFloat (fmul (of_int M) (fst b))"
  define c where "c = int32OfFloat (fmul (of_int M) (snd b))"
  have a: "0 \<le> a" "a \<le> M" using fmul_range [OF assms(1,2,3,4)] by (simp_all add: a_def)
  have c: "0 \<le> c" "c \<le> M" using fmul_range [OF assms(1,2,5,6)] by (simp_all add: c_def)
  define lo where "lo = bucketMin M b"
  define hi where "hi = bucketMax M b"
  have lo: "lo = (if a < 1 then 1 else a)" by (simp add: lo_def bucketMin_def a_def max_def)
  have hi: "hi = (if c < lo then lo else c)" by (auto simp add: hi_def bucketMax_def c_def lo_def max_def)
  have r: "1 \<le> lo" "lo \<le> hi" "hi \<le> M" using a c assms(1) by (auto simp add: lo hi)
  have pf: "pickFrac M (fst b) (snd b) g
      = (if hi = lo then (lo, g)
         else (wrap32 (lo + wrap32 (fst (RandIntn (wrap32 (hi - lo + 1)) g))),
               snd (RandIntn (wrap32 (hi - lo + 1)) g)))"
    by (simp add: pickFrac_def Let_def lo hi a_def c_def)
  show ?thesis
  proof (cases "hi = lo")
    case True
    with pf r show ?thesis by (simp add: lo_def [symmetric] hi_def [symmetric])
  next
    case False
    with r have n: "2 \<le> hi - lo + 1" "hi - lo + 1 \<le> M" by simp_all
    then have w: "wrap32 (hi - lo + 1) = hi - lo + 1" using assms(2) by (intro wrap32_id) simp_all
    define k where "k = int (fst (nextRaw g)) mod (hi - lo + 1)"
    have npos: "0 < hi - lo + 1" using n by linarith
    have k: "0 \<le> k" "k < hi - lo + 1"
      unfolding k_def using npos by (rule pos_mod_sign, rule pos_mod_bound)
    have ri: "fst (RandIntn (hi - lo + 1) g) = k" using n by (simp add: RandIntn_def k_def)
    have wk: "wrap32 k = k" using k n assms(2) by (intro wrap32_id) simp_all
    have wl: "wrap32 (lo + k) = lo + k" using k r assms(2) by (intro wrap32_id) simp_all
    from pf False have "fst (pickFrac M (fst b) (snd b) g) = lo + k"
      by (simp add: w ri wk wl)
    with r show ?thesis by (simp add: lo_def [symmetric] hi_def [symmetric] k_def)
  qed
qed

lemma budget_range: "maxTokens < 2 ^ 31 \<Longrightarrow> 1 \<le> budget maxTokens \<and> budget maxTokens < 2 ^ 31"
  by (simp add: budget_def)

lemma buckets_range: "b \<in> set buckets \<Longrightarrow> 0 < fst b \<and> fst b \<le> 1 \<and> 0 < snd b \<and> snd b \<le> 1"
  using const_range [of "5 / 100"] const_range [of "22 / 100"] const_range [of "62 / 100"]
    const_range [of "92 / 100"]
  by (auto simp add: buckets_def)

lemma pickTargetTokens_bucket:
  "\<exists>b \<in> set buckets.
     pickTargetTokens maxTokens promptRunes g
       = pickFrac (budget maxTokens) (fst b) (snd b) (snd (RandFloat64 g))"
  by (simp add: pickTargetTokens_def Let_def buckets_def budget_def)

text \<open>
  Claim C8. For every \<^verbatim>\<open>int32\<close> budget and every prompt length, \<^verbatim>\<open>pickTargetTokens\<close> returns
  \<^verbatim>\<open>pickFrac\<close> of one of the four buckets on the budget \<open>M\<close> (the given one if positive, else
  128). The result is the bucket's lower token bound plus one draw of the random source
  reduced modulo the number of values between the bounds, so it lies between the bounds;
  the lower bound is at least 1 and the upper bound at most \<open>M\<close>, hence the result is in
  \<open>[1, M]\<close>.
\<close>

theorem pickTargetTokens_range:
  assumes "maxTokens < 2 ^ 31"
  shows "\<exists>b \<in> set buckets.
     pickTargetTokens maxTokens promptRunes g
       = pickFrac (budget maxTokens) (fst b) (snd b) (snd (RandFloat64 g))
     \<and> fst (pickTargetTokens maxTokens promptRunes g)
         = bucketMin (budget maxTokens) b
           + int (fst (nextRaw (snd (RandFloat64 g))))
               mod (bucketMax (budget maxTokens) b - bucketMin (budget maxTokens) b + 1)
     \<and> 1 \<le> bucketMin (budget maxTokens) b
     \<and> bucketMin (budget maxTokens) b \<le> fst (pickTargetTokens maxTokens promptRunes g)
     \<and> fst (pickTargetTokens maxTokens promptRunes g) \<le> bucketMax (budget maxTokens) b
     \<and> bucketMax (budget maxTokens) b \<le> budget maxTokens
     \<and> 1 \<le> fst (pickTargetTokens maxTokens promptRunes g)
     \<and> fst (pickTargetTokens maxTokens promptRunes g) \<le> budget maxTokens"
proof -
  from pickTargetTokens_bucket obtain b where b: "b \<in> set buckets"
    and p: "pickTargetTokens maxTokens promptRunes g
       = pickFrac (budget maxTokens) (fst b) (snd b) (snd (RandFloat64 g))" by blast
  let ?M = "budget maxTokens"
  let ?g = "snd (RandFloat64 g)"
  from budget_range [OF assms] buckets_range [OF b]
  have "fst (pickFrac ?M (fst b) (snd b) ?g)
           = bucketMin ?M b + int (fst (nextRaw ?g)) mod (bucketMax ?M b - bucketMin ?M b + 1)
     \<and> 1 \<le> bucketMin ?M b \<and> bucketMin ?M b \<le> bucketMax ?M b \<and> bucketMax ?M b \<le> ?M"
    by (intro pickFrac_range) simp_all
  then have r: "fst (pickTargetTokens maxTokens promptRunes g)
           = bucketMin ?M b + int (fst (nextRaw ?g)) mod (bucketMax ?M b - bucketMin ?M b + 1)"
     "1 \<le> bucketMin ?M b" "bucketMin ?M b \<le> bucketMax ?M b" "bucketMax ?M b \<le> ?M"
    by (simp_all add: p)
  define k where "k = int (fst (nextRaw ?g)) mod (bucketMax ?M b - bucketMin ?M b + 1)"
  have npos: "0 < bucketMax ?M b - bucketMin ?M b + 1" using r(3) by linarith
  have k: "0 \<le> k" "k < bucketMax ?M b - bucketMin ?M b + 1"
    unfolding k_def using npos by (rule pos_mod_sign, rule pos_mod_bound)
  have v: "fst (pickTargetTokens maxTokens promptRunes g) = bucketMin ?M b + k"
    using r(1) by (simp add: k_def)
  have "bucketMin ?M b \<le> fst (pickTargetTokens maxTokens promptRunes g)"
    "fst (pickTargetTokens maxTokens promptRunes g) \<le> bucketMax ?M b"
    "1 \<le> fst (pickTargetTokens maxTokens promptRunes g)"
    "fst (pickTargetTokens maxTokens promptRunes g) \<le> ?M"
    using k r(2,4) by (simp_all add: v)
  with b p r show ?thesis by blast
qed

theorem pickTargetTokens_range_witness:
  "(100 :: int) < 2 ^ 31
   \<and> 1 \<le> fst (pickTargetTokens 100 0 zeroRng)
   \<and> fst (pickTargetTokens 100 0 zeroRng) \<le> 100"
  using pickTargetTokens_range [of 100 0 zeroRng] by (auto simp add: budget_def)

end
